theory Spec2Isabelle
  imports Main "HOL-Library.Sublist" "HOL-Library.Char_ord" "HOL-Library.List_Lexorder"
    "HOL-Library.AList"
begin

section \<open>Strings as Python sees them\<close>

text \<open>
  Python strings are modelled as \<^typ>\<open>string\<close>, one \<^typ>\<open>char\<close> per code point below 256.
  \<open>str.strip()\<close> without argument removes the characters for which \<open>str.isspace\<close> holds;
  below 256 these are the code points 9 to 13, 28 to 32, 133 and 160.
\<close>

definition is_space :: "char \<Rightarrow> bool" where
  "is_space c = (let n = (of_char c :: nat) in (9 \<le> n \<and> n \<le> 13) \<or> (28 \<le> n \<and> n \<le> 32) \<or> n = 133 \<or> n = 160)"

definition rstrip_chars :: "(char \<Rightarrow> bool) \<Rightarrow> string \<Rightarrow> string" where
  "rstrip_chars P s = rev (dropWhile P (rev s))"

definition lstrip_chars :: "('a \<Rightarrow> bool) \<Rightarrow> 'a list \<Rightarrow> 'a list" where
  "lstrip_chars P s = dropWhile P s"

definition strip :: "string \<Rightarrow> string" where
  "strip s = rstrip_chars is_space (lstrip_chars is_space s)"

definition endswith :: "string \<Rightarrow> string \<Rightarrow> bool" where
  "endswith s suf = suffix suf s"

definition startswith :: "string \<Rightarrow> string \<Rightarrow> bool" where
  "startswith s pre = prefix pre s"

section \<open>Errors\<close>

text \<open>
  Every exception the modelled code raises, or lets through from a library call, is a value
  of \<open>error\<close>; the string is the exception's message. The source raises \<open>RuntimeError\<close> for
  all of its own failure conditions and tells them apart by the message only.
\<close>

datatype error =
    RuntimeError string
  | FileNotFoundError string
  | OSError string
  | ImportError string
  | ValueError string
  | OtherException string

section \<open>Pure paths\<close>

text \<open>
  A \<open>pathlib\<close> path on POSIX: whether it is anchored at the root, and its components.
  Parsing a string drops empty and \<open>.\<close> components; joining with an anchored path gives
  that path.
\<close>

fun split_on :: "char \<Rightarrow> string \<Rightarrow> string list" where
  "split_on sep [] = [[]]"
| "split_on sep (c # cs) =
     (if c = sep then [] # split_on sep cs
      else (case split_on sep cs of w # ws \<Rightarrow> (c # w) # ws | [] \<Rightarrow> [[c]]))"

fun join_sep :: "string \<Rightarrow> string list \<Rightarrow> string" where
  "join_sep sep [] = []"
| "join_sep sep [x] = x"
| "join_sep sep (x # y # ys) = x @ sep @ join_sep sep (y # ys)"

record ppath =
  anchored :: bool
  parts :: "string list"

definition path_parts :: "string \<Rightarrow> string list" where
  "path_parts s = filter (\<lambda>c. c \<noteq> [] \<and> c \<noteq> ''.'') (split_on CHR ''/'' s)"

definition parse_path :: "string \<Rightarrow> ppath" where
  "parse_path s = \<lparr>anchored = (s \<noteq> [] \<and> hd s = CHR ''/''), parts = path_parts s\<rparr>"

definition path_join :: "ppath \<Rightarrow> string \<Rightarrow> ppath" where
  "path_join p s =
     (let q = parse_path s in
      if anchored q then q else \<lparr>anchored = anchored p, parts = parts p @ parts q\<rparr>)"

definition path_str :: "ppath \<Rightarrow> string" where
  "path_str p =
     (if anchored p then CHR ''/'' # join_sep ''/'' (parts p)
      else if parts p = [] then ''.'' else join_sep ''/'' (parts p))"

section \<open>The self-hosted MinerU client (utils/self_hosted_mineru.py)\<close>

subsection \<open>Endpoint resolution\<close>

definition DEFAULT_SELF_HOSTED_ENDPOINT :: string where
  "DEFAULT_SELF_HOSTED_ENDPOINT = ''http://ai23.labs.hpecorp.net:8023/file_parse''"

definition resolve_self_hosted_endpoint :: "string \<Rightarrow> string" where
  "resolve_self_hosted_endpoint mineru_api_base_or_endpoint =
     (let url = strip mineru_api_base_or_endpoint;
          url = (if url = [] then DEFAULT_SELF_HOSTED_ENDPOINT else url)
      in if endswith url ''/file_parse'' then url
         else rstrip_chars (\<lambda>c. c = CHR ''/'') url @ ''/file_parse'')"

subsection \<open>The file system\<close>

text \<open>
  The file system is a tree: a file with its bytes, or a directory with its entries in the
  order in which the operating system lists them. A path is the list of the components of
  an absolute path, root first. Symbolic links are not modelled, so \<open>Path.resolve()\<close> is the
  removal of \<open>..\<close> components (\<open>..\<close> at the root stays at the root).
\<close>

type_synonym bytes = string

datatype node = File bytes | Dir "(string \<times> node) list"

type_synonym path = "string list"

fun lookup :: "node \<Rightarrow> path \<Rightarrow> node option" where
  "lookup n [] = Some n"
| "lookup (File b) (c # cs) = None"
| "lookup (Dir es) (c # cs) = (case map_of es c of None \<Rightarrow> None | Some n \<Rightarrow> lookup n cs)"

definition fs_exists :: "node \<Rightarrow> path \<Rightarrow> bool" where
  "fs_exists root p = (lookup root p \<noteq> None)"



text \<open>The entries of a directory; nothing for a path that is not a directory.\<close>

definition listdir :: "node \<Rightarrow> path \<Rightarrow> (string \<times> node) list" where
  "listdir root p = (case lookup root p of Some (Dir es) \<Rightarrow> es | _ \<Rightarrow> [])"

definition abs_path :: "path \<Rightarrow> ppath" where
  "abs_path p = \<lparr>anchored = True, parts = p\<rparr>"

definition str_of_path :: "path \<Rightarrow> string" where
  "str_of_path p = path_str (abs_path p)"

definition resolve_step :: "path \<Rightarrow> string \<Rightarrow> path" where
  "resolve_step acc c =
     (if c = ''..'' then butlast acc else if c = ''.'' \<or> c = [] then acc else acc @ [c])"

definition resolve :: "path \<Rightarrow> path" where
  "resolve p = foldl resolve_step [] p"

text \<open>\<open>p / s\<close> for an absolute path \<open>p\<close> and a string \<open>s\<close>, not yet resolved.\<close>

definition child :: "path \<Rightarrow> string \<Rightarrow> path" where
  "child p s = parts (path_join (abs_path p) s)"

text \<open>
  \<open>fresh cs w\<close> is what creating the path \<open>cs\<close> below a directory that lacks its first
  component produces: a chain of directories ending in an empty directory (\<open>w = None\<close>) or in
  a file with the given bytes.
\<close>

fun fresh :: "path \<Rightarrow> bytes option \<Rightarrow> node" where
  "fresh [] None = Dir []"
| "fresh [] (Some d) = File d"
| "fresh (c # cs) w = Dir [(c, fresh cs w)]"

text \<open>
  \<open>mk p None\<close> is \<open>os.makedirs(p, exist_ok=True)\<close>; \<open>mk p (Some d)\<close> creates the missing
  parent directories of \<open>p\<close> and writes the file \<open>p\<close> with bytes \<open>d\<close>, replacing an existing
  file. Either fails, changing nothing, when a file stands where a directory is needed or a
  directory where the file is to be written.
\<close>

fun mk :: "path \<Rightarrow> bytes option \<Rightarrow> node \<Rightarrow> error + node" where
  "mk [] None (Dir es) = Inr (Dir es)"
| "mk [] None (File b) = Inl (OSError ''File exists'')"
| "mk [] (Some d) (File b) = Inr (File d)"
| "mk [] (Some d) (Dir es) = Inl (OSError ''Is a directory'')"
| "mk (c # cs) w (File b) = Inl (OSError ''Not a directory'')"
| "mk (c # cs) w (Dir es) =
     (case map_of es c of
        None \<Rightarrow> Inr (Dir (es @ [(c, fresh cs w)]))
      | Some n \<Rightarrow>
          (case mk cs w n of
             Inl e \<Rightarrow> Inl e
           | Inr n' \<Rightarrow> Inr (Dir (AList.update c n' es))))"

text \<open>\<open>Path.write_bytes\<close>: the parent directory must exist.\<close>

definition write_bytes :: "path \<Rightarrow> bytes \<Rightarrow> node \<Rightarrow> error + node" where
  "write_bytes p d root =
     (case lookup root (butlast p) of
        Some (Dir es) \<Rightarrow> mk p (Some d) root
      | _ \<Rightarrow> Inl (FileNotFoundError (str_of_path p)))"

text \<open>\<open>Path.read_bytes\<close>.\<close>

definition read_bytes :: "path \<Rightarrow> node \<Rightarrow> error + bytes" where
  "read_bytes p root =
     (case lookup root p of
        Some (File b) \<Rightarrow> Inr b
      | Some (Dir es) \<Rightarrow> Inl (OSError ''Is a directory'')
      | None \<Rightarrow> Inl (FileNotFoundError (str_of_path p)))"

text \<open>Replacing the entries of the directory at a path; other paths are left alone.\<close>

fun set_entries :: "path \<Rightarrow> (string \<times> node) list \<Rightarrow> node \<Rightarrow> node" where
  "set_entries [] es' (Dir es) = Dir es'"
| "set_entries [] es' (File b) = File b"
| "set_entries (c # cs) es' (File b) = File b"
| "set_entries (c # cs) es' (Dir es) =
     (case map_of es c of
        None \<Rightarrow> Dir es
      | Some n \<Rightarrow> Dir (AList.update c (set_entries cs es' n) es))"

subsection \<open>Zip archives\<close>

text \<open>
  Of an archive the code reads the list of members (\<open>infolist\<close>); a member has a name and
  bytes, and is a directory entry when its name ends in a slash.
\<close>

record zip_member =
  filename :: string
  member_data :: bytes

definition member_is_dir :: "zip_member \<Rightarrow> bool" where
  "member_is_dir m = endswith (filename m) ''/''"

text \<open>
  \<open>ZipFile.extractall\<close> of the standard library writes each member below the target
  directory, at the member's name without its empty, \<open>.\<close> and \<open>..\<close> components; it makes
  the directories that are missing on the way. It stops at the first member that cannot
  be written; the members written before stay.
\<close>

definition sanitize :: "string \<Rightarrow> path" where
  "sanitize arcname = filter (\<lambda>x. x \<noteq> [] \<and> x \<noteq> ''.'' \<and> x \<noteq> ''..'') (split_on CHR ''/'' arcname)"

definition extract_member :: "path \<Rightarrow> zip_member \<Rightarrow> node \<Rightarrow> error + node" where
  "extract_member targetdir m root =
     (let targetpath = targetdir @ sanitize (filename m) in
      if member_is_dir m then mk targetpath None root
      else mk targetpath (Some (member_data m)) root)"

fun extractall :: "zip_member list \<Rightarrow> path \<Rightarrow> node \<Rightarrow> (error + unit) \<times> node" where
  "extractall [] targetdir root = (Inr (), root)"
| "extractall (m # ms) targetdir root =
     (case extract_member targetdir m root of
        Inl e \<Rightarrow> (Inl e, root)
      | Inr root' \<Rightarrow> extractall ms targetdir root')"

subsection \<open>Safe unpacking\<close>

text \<open>
  \<open>_safe_extractall\<close>: the loop over the members raises at the first member whose resolved
  destination, as a string, neither starts with the resolved target directory followed by
  a slash nor is the resolved target directory; when no member raises, the archive is
  extracted.
\<close>

definition member_dest :: "path \<Rightarrow> zip_member \<Rightarrow> path" where
  "member_dest out_dir_resolved member = resolve (child out_dir_resolved (filename member))"

definition unsafe_member :: "path \<Rightarrow> zip_member \<Rightarrow> bool" where
  "unsafe_member out_dir_resolved member =
     (let dest = member_dest out_dir_resolved member in
      \<not> startswith (str_of_path dest) (str_of_path out_dir_resolved @ ''/'')
      \<and> dest \<noteq> out_dir_resolved)"

fun check_members :: "path \<Rightarrow> zip_member list \<Rightarrow> error + unit" where
  "check_members out_dir_resolved [] = Inr ()"
| "check_members out_dir_resolved (member # ms) =
     (if unsafe_member out_dir_resolved member
      then Inl (RuntimeError (''Unsafe path in zip: '' @ filename member))
      else check_members out_dir_resolved ms)"

definition safe_extractall :: "zip_member list \<Rightarrow> path \<Rightarrow> node \<Rightarrow> (error + unit) \<times> node" where
  "safe_extractall zf out_dir root =
     (let out_dir_resolved = resolve out_dir in
      case check_members out_dir_resolved zf of
        Inl e \<Rightarrow> (Inl e, root)
      | Inr u \<Rightarrow> extractall zf out_dir_resolved root)"

text \<open>A path is well formed when no component contains a slash.\<close>

definition valid_path :: "path \<Rightarrow> bool" where
  "valid_path p = list_all (\<lambda>c. CHR ''/'' \<notin> set c) p"


subsection \<open>File names\<close>

text \<open>
  \<open>PurePath.suffix\<close> and \<open>PurePath.stem\<close> split a name at its last dot, unless that dot is
  the first or the last character. \<open>str.lower\<close> on code points below 256 maps \<open>A\<close> to \<open>Z\<close>
  and the capital letters from 192 to 222, except 215, to the code point 32 above.
\<close>

definition rfind :: "char \<Rightarrow> string \<Rightarrow> nat option" where
  "rfind c s =
     (let k = length (takeWhile (\<lambda>x. x \<noteq> c) (rev s)) in
      if k = length s then None else Some (length s - 1 - k))"

definition path_suffix :: "string \<Rightarrow> string" where
  "path_suffix nm =
     (case rfind CHR ''.'' nm of
        None \<Rightarrow> []
      | Some i \<Rightarrow> if 0 < i \<and> i < length nm - 1 then drop i nm else [])"

definition path_stem :: "string \<Rightarrow> string" where
  "path_stem nm =
     (case rfind CHR ''.'' nm of
        None \<Rightarrow> nm
      | Some i \<Rightarrow> if 0 < i \<and> i < length nm - 1 then take i nm else nm)"

definition to_lower :: "char \<Rightarrow> char" where
  "to_lower c =
     (let n = (of_char c :: nat) in
      if (65 \<le> n \<and> n \<le> 90) \<or> (192 \<le> n \<and> n \<le> 222 \<and> n \<noteq> 215) then char_of (n + 32) else c)"

definition lower :: "string \<Rightarrow> string" where
  "lower s = map to_lower s"

text \<open>The last component of a path (\<open>Path.name\<close>); empty for the root.\<close>

definition path_name :: "path \<Rightarrow> string" where
  "path_name p = (if p = [] then [] else last p)"

subsection \<open>Hoisting a single top-level directory\<close>

definition ignored_names :: "string list" where
  "ignored_names = [''__MACOSX'', ''.DS_Store'']"

definition is_file :: "node \<Rightarrow> bool" where
  "is_file n = (case n of File b \<Rightarrow> True | Dir es \<Rightarrow> False)"

text \<open>The first loop of \<open>_flatten_single_top_level_dir\<close> keeps an entry unless one of its two tests skips it.\<close>

definition is_candidate :: "string \<times> node \<Rightarrow> bool" where
  "is_candidate p =
     (if fst p \<in> set ignored_names then False
      else if is_file (snd p) \<and> lower (path_suffix (fst p)) = ''.zip'' then False
      else True)"

text \<open>
  \<open>p.rename(target)\<close> for an entry \<open>p\<close> of the directory \<open>only\<close>, with the target directly
  under the extraction directory: the entry leaves \<open>only\<close> and appears among the top-level
  entries.
\<close>

fun remove_child :: "string \<Rightarrow> node \<Rightarrow> node" where
  "remove_child pname (Dir cs) = Dir (AList.delete pname cs)"
| "remove_child pname (File b) = File b"

definition rename_up :: "string \<Rightarrow> string \<Rightarrow> node \<Rightarrow> (string \<times> node) list \<Rightarrow> (string \<times> node) list" where
  "rename_up only_name pname pnode es =
     AList.map_entry only_name (remove_child pname) es @ [(pname, pnode)]"

text \<open>
  The second loop, over the entries of \<open>only\<close> as listed when the loop starts; \<open>es\<close> are the
  current top-level entries. The loop raises at the first entry whose target exists.
\<close>

fun hoist ::
  "path \<Rightarrow> string \<Rightarrow> (string \<times> node) list \<Rightarrow> (string \<times> node) list \<Rightarrow>
     (error + unit) \<times> (string \<times> node) list" where
  "hoist extract_dir only_name [] es = (Inr (), es)"
| "hoist extract_dir only_name (p # ps) es =
     (let target = extract_dir @ [fst p] in
      if map_of es (fst p) \<noteq> None
      then (Inl (RuntimeError (''Cannot flatten zip output; target already exists: ''
                                @ str_of_path target)), es)
      else hoist extract_dir only_name ps (rename_up only_name (fst p) (snd p) es))"

text \<open>\<open>only.rmdir()\<close>, where an \<open>OSError\<close> (the directory is not empty) is passed over.\<close>

definition rmdir_best_effort :: "string \<Rightarrow> (string \<times> node) list \<Rightarrow> (string \<times> node) list" where
  "rmdir_best_effort only_name es =
     (case map_of es only_name of
        Some (Dir []) \<Rightarrow> AList.delete only_name es
      | _ \<Rightarrow> es)"

text \<open>The function on the entries of the extraction directory.\<close>

definition flatten_entries ::
  "path \<Rightarrow> (string \<times> node) list \<Rightarrow> (error + unit) \<times> (string \<times> node) list" where
  "flatten_entries extract_dir es =
     (let candidates = filter is_candidate es in
      if length candidates \<noteq> 1 then (Inr (), es)
      else case hd candidates of
             (only_name, File b) \<Rightarrow> (Inr (), es)
           | (only_name, Dir children) \<Rightarrow>
               (case hoist extract_dir only_name children es of
                  (Inl e, es') \<Rightarrow> (Inl e, es')
                | (Inr u, es') \<Rightarrow> (Inr (), rmdir_best_effort only_name es')))"

definition flatten_single_top_level_dir :: "path \<Rightarrow> node \<Rightarrow> (error + unit) \<times> node" where
  "flatten_single_top_level_dir extract_dir root =
     (case lookup root extract_dir of
        None \<Rightarrow> (Inl (FileNotFoundError (str_of_path extract_dir)), root)
      | Some (File b) \<Rightarrow> (Inl (OSError ''Not a directory''), root)
      | Some (Dir es) \<Rightarrow>
          (case flatten_entries extract_dir es of
             (r, es') \<Rightarrow> (r, set_entries extract_dir es' root)))"

subsection \<open>Backfilling \<open>layout.json\<close>\<close>

definition newline :: string where
  "newline = [char_of (10 :: nat)]"

text \<open>
  \<open>d.glob("*suf")\<close>: the entries of the directory \<open>d\<close>, files and directories alike, whose
  name ends in \<open>suf\<close>, in listing order.
\<close>

definition glob_suffix :: "string \<Rightarrow> node \<Rightarrow> path \<Rightarrow> path list" where
  "glob_suffix suf root d = map (\<lambda>nm. d @ [nm]) (filter (\<lambda>nm. endswith nm suf) (map fst (listdir root d)))"

definition ensure_layout_json_from_middle_json :: "path \<Rightarrow> string \<Rightarrow> node \<Rightarrow> (error + unit) \<times> node" where
  "ensure_layout_json_from_middle_json extract_dir pdf_stem root =
     (let layout_path = child extract_dir ''layout.json'' in
      if fs_exists root layout_path then (Inr (), root)
      else
        let preferred = child extract_dir (pdf_stem @ ''_middle.json'');
            middle_candidates = glob_suffix ''_middle.json'' root extract_dir;
            chosen = (if fs_exists root preferred then Some preferred
                      else if length middle_candidates = 1 then Some (hd middle_candidates)
                      else None)
        in case chosen of
             None \<Rightarrow>
               if middle_candidates = [] then (Inr (), root)
               else
                 let candidates = join_sep newline (sort (map path_name middle_candidates)) in
                 (Inl (RuntimeError
                    (''Multiple *_middle.json files found but layout.json is missing. ''
                     @ ''Cannot choose which to copy in '' @ str_of_path extract_dir
                     @ ''.'' @ newline @ ''Candidates:'' @ newline @ candidates)), root)
           | Some c \<Rightarrow>
               (case read_bytes c root of
                  Inl e \<Rightarrow> (Inl e, root)
                | Inr b \<Rightarrow>
                    (case write_bytes layout_path b root of
                       Inl e \<Rightarrow> (Inl e, root)
                     | Inr root' \<Rightarrow> (Inr (), root'))))"

subsection \<open>The request\<close>

text \<open>
  The service is reached through the \<open>requests\<close> library; what it answers to a request, or
  the exception it raises, is an input of the model. \<open>Response.ok\<close> is false exactly for the
  status codes from 400 to 599.
\<close>

record request =
  req_endpoint :: string
  req_data :: "(string \<times> string) list"
  req_file_name :: string
  req_file_bytes :: bytes
  req_timeout :: int

record response =
  status_code :: nat
  resp_text :: string
  resp_content :: bytes

definition resp_ok :: "response \<Rightarrow> bool" where
  "resp_ok resp = (\<not> (400 \<le> status_code resp \<and> status_code resp < 600))"

text \<open>The decimal digits of a natural number, as \<open>str\<close> prints it.\<close>

function show_nat :: "nat \<Rightarrow> string" where
  "show_nat n = (if n < 10 then [char_of (48 + n)] else show_nat (n div 10) @ [char_of (48 + n mod 10)])"
  by pat_completeness auto
termination
  by (relation "measure id") auto

declare show_nat.simps [simp del]

definition truncated_marker :: string where
  "truncated_marker = newline @ ''... (truncated) ...''"

definition post_file_parse ::
  "(request \<Rightarrow> error + response) \<Rightarrow> string \<Rightarrow> path \<Rightarrow> (string \<times> string) list \<Rightarrow> int \<Rightarrow> node \<Rightarrow>
     error + bytes" where
  "post_file_parse requests_post endpoint pdf_path form_fields timeout_s root =
     (case read_bytes pdf_path root of
        Inl e \<Rightarrow> Inl e
      | Inr f \<Rightarrow>
          (case requests_post \<lparr>req_endpoint = endpoint, req_data = form_fields,
                                req_file_name = path_name pdf_path, req_file_bytes = f,
                                req_timeout = timeout_s\<rparr> of
             Inl e \<Rightarrow> Inl e
           | Inr resp \<Rightarrow>
               if \<not> resp_ok resp then
                 let snippet = resp_text resp;
                     snippet = (if length snippet > 10000
                                then take 10000 snippet @ truncated_marker else snippet)
                 in Inl (RuntimeError (''Self-hosted MinerU error HTTP ''
                           @ show_nat (status_code resp) @ '': '' @ snippet))
               else Inr (resp_content resp)))"

subsection \<open>The whole call\<close>

text \<open>
  What the call takes from outside the program: the answer of the service, the two archive
  functions of the standard library (\<open>is_zipfile\<close> and the member list of a \<open>ZipFile\<close>, which
  may raise), the decoding of bytes for the error message, the eight hexadecimal digits of
  a fresh UUID, and the time stamp.
\<close>

record mineru_env =
  requests_post :: "request \<Rightarrow> error + response"
  is_zipfile :: "bytes \<Rightarrow> bool"
  zip_infolist :: "bytes \<Rightarrow> error + zip_member list"
  decode_utf8_replace :: "bytes \<Rightarrow> string"
  uuid_hex8 :: string
  timestamp :: string

definition default_fields :: "string \<Rightarrow> (string \<times> string) list" where
  "default_fields output_dir_field =
     [(''return_middle_json'', ''true''),
      (''return_model_output'', ''true''),
      (''return_md'', ''true''),
      (''return_images'', ''true''),
      (''end_page_id'', ''99999''),
      (''parse_method'', ''auto''),
      (''start_page_id'', ''0''),
      (''lang_list'', ''en''),
      (''output_dir'', output_dir_field),
      (''server_url'', ''string''),
      (''return_content_list'', ''true''),
      (''backend'', ''hybrid-auto-engine''),
      (''table_enable'', ''true''),
      (''response_format_zip'', ''true''),
      (''formula_enable'', ''true'')]"

definition dict_update :: "(string \<times> string) list \<Rightarrow> (string \<times> string) list \<Rightarrow> (string \<times> string) list" where
  "dict_update d overrides = fold (\<lambda>kv. AList.update (fst kv) (snd kv)) overrides d"

text \<open>
  The listing of everything below a directory (\<open>rglob("*")\<close>), each entry as its path
  relative to the directory, with slashes.
\<close>

fun rglob_node :: "node \<Rightarrow> string list"
  and rglob_entries :: "(string \<times> node) list \<Rightarrow> string list" where
  "rglob_node (File b) = []"
| "rglob_node (Dir es) = rglob_entries es"
| "rglob_entries [] = []"
| "rglob_entries (p # ps) =
     fst p # map (\<lambda>r. fst p @ ''/'' @ r) (rglob_node (snd p)) @ rglob_entries ps"

text \<open>The last step of the call: the check for a content list (lines 227 to 240).\<close>

definition check_content_list :: "string \<Rightarrow> path \<Rightarrow> node \<Rightarrow> error + string \<times> path" where
  "check_content_list extract_id extract_dir root =
     (let content_list_files = glob_suffix ''_content_list.json'' root extract_dir in
      if content_list_files = [] then
        let entries = sort (rglob_entries (listdir root extract_dir));
            preview = join_sep newline (take 200 entries);
            preview = (if length entries > 200 then preview @ truncated_marker else preview)
        in Inl (RuntimeError
             (''Self-hosted MinerU ZIP extracted, but no *_content_list.json was found under ''
              @ str_of_path extract_dir @ ''.'' @ newline @ ''Extracted entries:'' @ newline
              @ preview))
      else Inr (extract_id, extract_dir))"

definition parse_pdf_via_self_hosted_mineru ::
  "mineru_env \<Rightarrow> path \<Rightarrow> string \<Rightarrow> path \<Rightarrow> string \<Rightarrow> int \<Rightarrow> (string \<times> string) list option \<Rightarrow>
     node \<Rightarrow> (error + string \<times> path) \<times> node" where
  "parse_pdf_via_self_hosted_mineru env pdf_path0 mineru_api_base upload_folder0 output_dir_field
       timeout_s form_overrides root =
     (let endpoint = resolve_self_hosted_endpoint mineru_api_base;
          pdf_path = resolve pdf_path0;
          upload_folder = resolve upload_folder0
      in
      if \<not> fs_exists root pdf_path
      then (Inl (FileNotFoundError (''PDF not found: '' @ str_of_path pdf_path)), root)
      else
        let extract_id = take 8 (uuid_hex8 env);
            extract_dir = child (child upload_folder ''mineru_files'') extract_id
        in case mk extract_dir None root of
             Inl e \<Rightarrow> (Inl e, root)
           | Inr root1 \<Rightarrow>
               let form_fields = default_fields output_dir_field;
                   form_fields = (case form_overrides of
                               None \<Rightarrow> form_fields
                             | Some ov \<Rightarrow> if ov = [] then form_fields
                                          else dict_update form_fields ov)
               in case post_file_parse (requests_post env) endpoint pdf_path form_fields
                         timeout_s root1 of
                    Inl e \<Rightarrow> (Inl e, root1)
                  | Inr cont \<Rightarrow>
                      let zip_path = child extract_dir
                            (path_stem (path_name pdf_path) @ ''-mineru-'' @ timestamp env @ ''.zip'')
                      in case write_bytes zip_path cont root1 of
                           Inl e \<Rightarrow> (Inl e, root1)
                         | Inr root2 \<Rightarrow>
                             if \<not> is_zipfile env cont then
                               let sniff = decode_utf8_replace env (take 5000 cont) in
                               (Inl (RuntimeError
                                  (''Self-hosted MinerU returned non-zip payload. ''
                                   @ ''Saved to '' @ str_of_path zip_path @ ''. Snippet:''
                                   @ newline @ sniff)), root2)
                             else
                               (case zip_infolist env cont of
                                  Inl e \<Rightarrow> (Inl e, root2)
                                | Inr zf \<Rightarrow>
                                    (case safe_extractall zf extract_dir root2 of
                                       (Inl e, root3) \<Rightarrow> (Inl e, root3)
                                     | (Inr u, root3) \<Rightarrow>
                                         (case flatten_single_top_level_dir extract_dir root3 of
                                            (Inl e, root4) \<Rightarrow> (Inl e, root4)
                                          | (Inr u, root4) \<Rightarrow>
                                              (case ensure_layout_json_from_middle_json extract_dir
                                                      (path_stem (path_name pdf_path)) root4 of
                                                 (Inl e, root5) \<Rightarrow> (Inl e, root5)
                                               | (Inr u, root5) \<Rightarrow>
                                                   (check_content_list extract_id extract_dir root5,
                                                    root5))))))"

text \<open>The result directory of a call, and the file the payload is saved to.\<close>

definition extract_dir_of :: "mineru_env \<Rightarrow> path \<Rightarrow> path" where
  "extract_dir_of env upload_folder0 =
     child (child (resolve upload_folder0) ''mineru_files'') (take 8 (uuid_hex8 env))"

definition zip_path_of :: "mineru_env \<Rightarrow> path \<Rightarrow> path \<Rightarrow> path" where
  "zip_path_of env pdf_path0 upload_folder0 =
     child (extract_dir_of env upload_folder0)
       (path_stem (path_name (resolve pdf_path0)) @ ''-mineru-'' @ timestamp env @ ''.zip'')"

text \<open>The snippet of a response body that goes into the error message.\<close>

definition body_snippet :: "string \<Rightarrow> string" where
  "body_snippet t = (if length t > 10000 then take 10000 t @ truncated_marker else t)"


section \<open>The template style extractor (utils/template_style_extractor.py)\<close>

subsection \<open>Python's \<open>int(s, 16)\<close>\<close>

text \<open>
  A colour string is a Python string: a list of Unicode code points. \<open>int(s, 16)\<close> first
  turns its argument into ASCII: a code point below 128 stays; from 128 up, whitespace
  becomes a space, a decimal digit of any script becomes the ASCII digit of its value, and
  every other code point becomes a question mark, with which no number is read. (CPython
  treats 127 as it treats the code points from 128 up; it is neither whitespace nor a
  digit, and as itself it is no part of a number either.) The decimal value of a code
  point comes from the Unicode database of the interpreter; it is an input of the model,
  \<open>todecimal\<close>, consulted from 128 up only.
\<close>

type_synonym unicode = "nat list"

definition ustr :: "string \<Rightarrow> unicode" where
  "ustr s = map of_char s"

definition unicode_isspace :: "nat \<Rightarrow> bool" where
  "unicode_isspace n =
     (n = 133 \<or> n = 160 \<or> n = 5760 \<or> (8192 \<le> n \<and> n \<le> 8202) \<or> n = 8232 \<or> n = 8233
      \<or> n = 8239 \<or> n = 8287 \<or> n = 12288)"

definition to_ascii :: "(nat \<Rightarrow> nat option) \<Rightarrow> nat \<Rightarrow> char" where
  "to_ascii todecimal n =
     (if n < 128 then char_of n
      else if unicode_isspace n then CHR '' ''
      else case todecimal n of
             Some d \<Rightarrow> if d < 10 then char_of (48 + d) else CHR ''?''
           | None \<Rightarrow> CHR ''?'')"

text \<open>
  On the ASCII string, the number is read as follows: surrounding whitespace (code points
  9 to 13 and 32) is skipped; one sign and an optional \<open>0x\<close>/\<open>0X\<close> prefix are accepted;
  then come hexadecimal digits with single underscores between them. Anything else is a
  \<open>ValueError\<close>, modelled as \<open>None\<close>.
\<close>

definition int_space :: "char \<Rightarrow> bool" where
  "int_space c = (let n = (of_char c :: nat) in (9 \<le> n \<and> n \<le> 13) \<or> n = 32)"

definition hex_digit_value :: "char \<Rightarrow> int option" where
  "hex_digit_value c =
     (let n = (of_char c :: nat) in
      if 48 \<le> n \<and> n \<le> 57 then Some (int n - 48)
      else if 65 \<le> n \<and> n \<le> 70 then Some (int n - 55)
      else if 97 \<le> n \<and> n \<le> 102 then Some (int n - 87)
      else None)"

text \<open>
  \<open>scan_digits cs prev_us n acc\<close> reads digits and underscores from \<open>cs\<close>; \<open>prev_us\<close>
  tells whether the previous character was an underscore, \<open>n\<close> counts the digits read.
  It stops at the first other character and returns the value, the count, the flag and
  the rest; two underscores in a row fail.
\<close>

fun scan_digits :: "string \<Rightarrow> bool \<Rightarrow> nat \<Rightarrow> int \<Rightarrow> (int \<times> nat \<times> bool \<times> string) option" where
  "scan_digits [] prev_us n acc = Some (acc, n, prev_us, [])"
| "scan_digits (c # cs) prev_us n acc =
     (if c = CHR ''_'' then (if prev_us then None else scan_digits cs True n acc)
      else case hex_digit_value c of
             Some d \<Rightarrow> scan_digits cs False (Suc n) (acc * 16 + d)
           | None \<Rightarrow> Some (acc, n, prev_us, c # cs))"

definition py_int16_ascii :: "string \<Rightarrow> int option" where
  "py_int16_ascii s =
     (let s1 = dropWhile int_space s;
          (sign, s2) = (case s1 of
                          c # cs \<Rightarrow> if c = CHR ''+'' then (1, cs)
                                    else if c = CHR ''-'' then (- 1, cs) else (1, s1)
                        | [] \<Rightarrow> (1, s1));
          s3 = (case s2 of
                  a # b # cs \<Rightarrow>
                    if a = CHR ''0'' \<and> (b = CHR ''x'' \<or> b = CHR ''X'')
                    then (case cs of u # cs' \<Rightarrow> if u = CHR ''_'' then cs' else cs | [] \<Rightarrow> cs)
                    else s2
                | _ \<Rightarrow> s2)
      in case s3 of
           [] \<Rightarrow> None
         | c # _ \<Rightarrow>
             if c = CHR ''_'' then None
             else case scan_digits s3 False 0 0 of
                    None \<Rightarrow> None
                  | Some (v, n, prev_us, rest) \<Rightarrow>
                      if n = 0 \<or> prev_us \<or> dropWhile int_space rest \<noteq> [] then None
                      else Some (sign * v))"

definition py_int16 :: "(nat \<Rightarrow> nat option) \<Rightarrow> unicode \<Rightarrow> int option" where
  "py_int16 todecimal s = py_int16_ascii (map (to_ascii todecimal) s)"

subsection \<open>Colours\<close>

type_synonym rgb = "int \<times> int \<times> int"

text \<open>
  \<open>_parse_color\<close>: a falsy argument (\<open>None\<close> or the empty string) gives \<open>None\<close>; otherwise
  leading \<open>#\<close> characters (code point 35) are removed and, when six characters remain, the
  three two-character slices are parsed with \<open>int(_, 16)\<close>. A \<open>ValueError\<close> is caught and
  gives \<open>None\<close>, as does any other length.
\<close>

definition parse_color :: "(nat \<Rightarrow> nat option) \<Rightarrow> unicode option \<Rightarrow> rgb option" where
  "parse_color todecimal color_str =
     (case color_str of
        None \<Rightarrow> None
      | Some cs0 \<Rightarrow>
          if cs0 = [] then None
          else let cs = lstrip_chars (\<lambda>c. c = 35) cs0 in
               if length cs = 6 then
                 (case py_int16 todecimal (take 2 cs) of
                    None \<Rightarrow> None
                  | Some r \<Rightarrow>
                      (case py_int16 todecimal (take 2 (drop 2 cs)) of
                         None \<Rightarrow> None
                       | Some g \<Rightarrow>
                           (case py_int16 todecimal (take 2 (drop 4 cs)) of
                              None \<Rightarrow> None
                            | Some b \<Rightarrow> Some (r, g, b))))
               else None)"

text \<open>
  The pattern of the specification, \<open>[0-9A-Fa-f]{6}\<close> matched against the whole string,
  and the value of a pair of hexadecimal digits.
\<close>

definition is_hex_code :: "nat \<Rightarrow> bool" where
  "is_hex_code n = ((48 \<le> n \<and> n \<le> 57) \<or> (65 \<le> n \<and> n \<le> 70) \<or> (97 \<le> n \<and> n \<le> 102))"

definition matches_hex6 :: "unicode \<Rightarrow> bool" where
  "matches_hex6 s = (length s = 6 \<and> list_all is_hex_code s)"

definition hex_value :: "nat \<Rightarrow> int" where
  "hex_value n = (if n \<le> 57 then int n - 48 else if n \<le> 70 then int n - 55 else int n - 87)"

definition hex_pair :: "nat \<Rightarrow> nat \<Rightarrow> int" where
  "hex_pair a b = 16 * hex_value a + hex_value b"

text \<open>
  A stray code point is one that \<open>int(_, 16)\<close> accepts in no position of a two-character
  string: neither a hexadecimal digit, nor whitespace, nor a sign, nor a decimal digit of
  another script.
\<close>

definition is_decimal :: "(nat \<Rightarrow> nat option) \<Rightarrow> nat \<Rightarrow> bool" where
  "is_decimal todecimal n =
     (128 \<le> n \<and> (case todecimal n of Some d \<Rightarrow> d < 10 | None \<Rightarrow> False))"

definition is_int_space :: "nat \<Rightarrow> bool" where
  "is_int_space n = (if n < 128 then (9 \<le> n \<and> n \<le> 13) \<or> n = 32 else unicode_isspace n)"

definition stray :: "(nat \<Rightarrow> nat option) \<Rightarrow> nat \<Rightarrow> bool" where
  "stray todecimal n =
     (\<not> is_hex_code n \<and> \<not> is_int_space n \<and> n \<noteq> 43 \<and> n \<noteq> 45 \<and> \<not> is_decimal todecimal n)"

text \<open>The same for a character of the ASCII string.\<close>

definition is_hex_digit :: "char \<Rightarrow> bool" where
  "is_hex_digit c =
     (let n = (of_char c :: nat) in
      (48 \<le> n \<and> n \<le> 57) \<or> (65 \<le> n \<and> n \<le> 70) \<or> (97 \<le> n \<and> n \<le> 102))"

definition stray_char :: "char \<Rightarrow> bool" where
  "stray_char c = (\<not> is_hex_digit c \<and> \<not> int_space c \<and> c \<noteq> CHR ''+'' \<and> c \<noteq> CHR ''-'')"

text \<open>
  Two Unicode tables for examples: one without any digit beyond ASCII, and one with the
  fullwidth digits (code points 65296 to 65305) only.
\<close>

definition no_decimals :: "nat \<Rightarrow> nat option" where
  "no_decimals n = None"

definition fullwidth_decimals :: "nat \<Rightarrow> nat option" where
  "fullwidth_decimals n = (if 65296 \<le> n \<and> n \<le> 65305 then Some (n - 65296) else None)"

subsection \<open>Style records\<close>

record FontStyle =
  name :: string
  fallback_name :: string
  bold :: bool
  italic :: bool
  color_rgb :: "rgb option"

record StyleConfig =
  title_font :: FontStyle
  body_font :: FontStyle
  source_template :: "string option"

text \<open>The dataclass constructor \<open>FontStyle(name, ...)\<close> with its defaults.\<close>

definition mk_FontStyle :: "string \<Rightarrow> bool \<Rightarrow> rgb option \<Rightarrow> FontStyle" where
  "mk_FontStyle n b c =
     \<lparr>name = n, fallback_name = ''Arial'', bold = b, italic = False, color_rgb = c\<rparr>"

definition get_hpe_default_style :: StyleConfig where
  "get_hpe_default_style =
     \<lparr>title_font = \<lparr>name = ''HPE Graphik Semibold'', fallback_name = ''Arial'', bold = True,
                     italic = False, color_rgb = None\<rparr>,
      body_font = \<lparr>name = ''HPE Graphik'', fallback_name = ''Arial'', bold = False,
                    italic = False, color_rgb = None\<rparr>,
      source_template = Some ''HPE defaults''\<rparr>"

subsection \<open>The text inventory of a template\<close>

text \<open>
  \<open>templates/inventory.py\<close> is not part of the sources at hand. Of its result
  \<open>extract_styles\<close> reads a dictionary of slides, each a dictionary of shapes, iterated in
  insertion order, and of every shape the placeholder type and the paragraphs, of every
  paragraph the font name, the bold flag and the colour string, any of which may be \<open>None\<close>.
\<close>

record ParagraphData =
  font_name :: "string option"
  para_bold :: "bool option"
  color :: "unicode option"

record ShapeData =
  placeholder_type :: "string option"
  paragraphs :: "ParagraphData list"

type_synonym inventory = "(string \<times> (string \<times> ShapeData) list) list"

text \<open>The six local variables of the scan.\<close>

record scan =
  title_font_name :: "string option"
  title_font_bold :: "bool option"
  title_font_color :: "rgb option"
  body_font_name :: "string option"
  body_font_bold :: "bool option"
  body_font_color :: "rgb option"

definition scan_init :: scan where
  "scan_init = \<lparr>title_font_name = None, title_font_bold = None, title_font_color = None,
                 body_font_name = None, body_font_bold = None, body_font_color = None\<rparr>"

text \<open>Python's truth value of an optional string: \<open>None\<close> and \<open>""\<close> are false.\<close>

definition truthy :: "string option \<Rightarrow> bool" where
  "truthy s = (case s of None \<Rightarrow> False | Some v \<Rightarrow> v \<noteq> [])"

definition is_title_type :: "string option \<Rightarrow> bool" where
  "is_title_type t = (t = Some ''TITLE'' \<or> t = Some ''CENTER_TITLE'')"

definition is_body_type :: "string option \<Rightarrow> bool" where
  "is_body_type t = (t = Some ''BODY'' \<or> t = Some ''SUBTITLE'' \<or> t = Some ''FOOTER'')"

text \<open>The body of the inner loop, for one shape.\<close>

definition scan_shape :: "(nat \<Rightarrow> nat option) \<Rightarrow> ShapeData \<Rightarrow> scan \<Rightarrow> scan" where
  "scan_shape todecimal shape_data st =
     (case paragraphs shape_data of
        [] \<Rightarrow> st
      | first_para # _ \<Rightarrow>
          let fname = font_name first_para;
              font_bold = para_bold first_para;
              font_color = parse_color todecimal (color first_para)
          in if \<not> truthy fname then st
             else if is_title_type (placeholder_type shape_data) then
               (if \<not> truthy (title_font_name st)
                then st\<lparr>title_font_name := fname, title_font_bold := font_bold,
                        title_font_color := font_color\<rparr>
                else st)
             else if is_body_type (placeholder_type shape_data) then
               (if \<not> truthy (body_font_name st)
                then st\<lparr>body_font_name := fname, body_font_bold := font_bold,
                        body_font_color := font_color\<rparr>
                else st)
             else st)"

definition scan_shapes :: "(nat \<Rightarrow> nat option) \<Rightarrow> ShapeData list \<Rightarrow> scan \<Rightarrow> scan" where
  "scan_shapes todecimal shapes st = fold (scan_shape todecimal) shapes st"

text \<open>The two nested loops visit the shapes of all slides in order.\<close>

definition inventory_shapes :: "inventory \<Rightarrow> ShapeData list" where
  "inventory_shapes inventory = concat (map (\<lambda>(slide_key, slide_data). map snd slide_data) inventory)"

definition scan_inventory :: "(nat \<Rightarrow> nat option) \<Rightarrow> inventory \<Rightarrow> scan" where
  "scan_inventory todecimal inventory =
     fold (\<lambda>(slide_key, slide_data) st.
             fold (\<lambda>(shape_key, shape_data). scan_shape todecimal shape_data) slide_data st)
       inventory scan_init"

definition build_config :: "string \<Rightarrow> scan \<Rightarrow> StyleConfig" where
  "build_config template_path_str st =
     \<lparr>title_font =
        (if truthy (title_font_name st)
         then mk_FontStyle (the (title_font_name st))
                (case title_font_bold st of Some b \<Rightarrow> b | None \<Rightarrow> True) (title_font_color st)
         else mk_FontStyle ''HPE Graphik Semibold'' True None),
      body_font =
        (if truthy (body_font_name st)
         then mk_FontStyle (the (body_font_name st))
                (case body_font_bold st of Some b \<Rightarrow> b | None \<Rightarrow> False) (body_font_color st)
         else mk_FontStyle ''HPE Graphik'' False None),
      source_template = Some template_path_str\<rparr>"

subsection \<open>First match, as the specification words it\<close>

text \<open>
  A shape offers a run of text with a font when it has a first paragraph whose font name
  is neither \<open>None\<close> nor empty. The specification takes the first such shape among the
  title placeholders, and the first among the body placeholders.
\<close>

definition usable_run :: "ShapeData \<Rightarrow> bool" where
  "usable_run sh = (case paragraphs sh of [] \<Rightarrow> False | p # _ \<Rightarrow> truthy (font_name p))"

definition first_title :: "ShapeData list \<Rightarrow> ShapeData option" where
  "first_title shapes = find (\<lambda>sh. usable_run sh \<and> is_title_type (placeholder_type sh)) shapes"

definition first_body :: "ShapeData list \<Rightarrow> ShapeData option" where
  "first_body shapes = find (\<lambda>sh. usable_run sh \<and> is_body_type (placeholder_type sh)) shapes"

definition slot_of ::
  "(nat \<Rightarrow> nat option) \<Rightarrow> ShapeData option \<Rightarrow> string option \<times> bool option \<times> rgb option" where
  "slot_of todecimal r =
     (case r of
        None \<Rightarrow> (None, None, None)
      | Some sh \<Rightarrow>
          (case paragraphs sh of
             [] \<Rightarrow> (None, None, None)
           | p # _ \<Rightarrow> (font_name p, para_bold p, parse_color todecimal (color p))))"

definition title_slot :: "scan \<Rightarrow> string option \<times> bool option \<times> rgb option" where
  "title_slot st = (title_font_name st, title_font_bold st, title_font_color st)"

definition body_slot :: "scan \<Rightarrow> string option \<times> bool option \<times> rgb option" where
  "body_slot st = (body_font_name st, body_font_bold st, body_font_color st)"

text \<open>
  The font a category ends with, given what was found for it: the found name, the found bold
  flag (the category's default when the paragraph has none) and the found colour, or the
  category's default font when nothing was found.
\<close>

definition font_of_slot ::
  "string \<Rightarrow> bool \<Rightarrow> string option \<times> bool option \<times> rgb option \<Rightarrow> FontStyle" where
  "font_of_slot default_name default_bold slot =
     (case slot of
        (Some n, b, c) \<Rightarrow> mk_FontStyle n (case b of Some v \<Rightarrow> v | None \<Rightarrow> default_bold) c
      | (None, b, c) \<Rightarrow> mk_FontStyle default_name default_bold None)"

subsection \<open>\<open>extract_styles\<close>\<close>

text \<open>
  The environment of \<open>extract_styles\<close>: what \<open>Path.exists\<close> answers for a path, or the
  \<open>OSError\<close> it raises (for a name that is too long, or a directory that may not be
  searched), and what importing \<open>inventory\<close> and calling \<open>extract_text_inventory\<close> give.
  The existence test comes before the \<open>try\<close> statement, so what it raises reaches the
  caller; both handlers of the \<open>try\<close> statement return the brand defaults.
\<close>

definition extract_styles_body ::
  "(nat \<Rightarrow> nat option) \<Rightarrow> (error + (ppath \<Rightarrow> error + inventory)) \<Rightarrow> ppath \<Rightarrow>
     error + StyleConfig" where
  "extract_styles_body todecimal import_inventory template_path =
     (case import_inventory of
        Inl e \<Rightarrow> Inl e
      | Inr extract_text_inventory \<Rightarrow>
          (case extract_text_inventory template_path of
             Inl e \<Rightarrow> Inl e
           | Inr inventory \<Rightarrow>
               Inr (build_config (path_str template_path) (scan_inventory todecimal inventory))))"

definition extract_styles ::
  "(nat \<Rightarrow> nat option) \<Rightarrow> (ppath \<Rightarrow> error + bool) \<Rightarrow> (error + (ppath \<Rightarrow> error + inventory)) \<Rightarrow>
     string \<Rightarrow> string \<Rightarrow> error + StyleConfig" where
  "extract_styles todecimal path_exists import_inventory template_dir content_template =
     (let template_path = path_join (parse_path template_dir) content_template in
      case path_exists template_path of
        Inl e \<Rightarrow> Inl e
      | Inr found \<Rightarrow>
          if \<not> found then Inr get_hpe_default_style
          else case extract_styles_body todecimal import_inventory template_path of
                 Inr config \<Rightarrow> Inr config
               | Inl (ImportError e) \<Rightarrow> Inr get_hpe_default_style
               | Inl e \<Rightarrow> Inr get_hpe_default_style)"

text \<open>
  A file system for examples: nothing exists in it, and a path with a component of more
  than 255 characters makes the existence test raise, as Linux does.
\<close>

definition empty_fs_exists :: "ppath \<Rightarrow> error + bool" where
  "empty_fs_exists p =
     (if list_ex (\<lambda>c. length c > 255) (parts p) then Inl (OSError ''File name too long'')
      else Inr False)"

section \<open>Background synthesis (pdf_to_pptx.py)\<close>

text \<open>
  \<open>generate_clean_backgrounds\<close> first imports \<open>export_service_inpainting\<close>, which is not part
  of the sources at hand: the import either raises or gives the helper
  \<open>generate_clean_backgrounds_with_inpainting\<close>. Then it reads the two credentials from the
  process environment, here a map from variable names to values.
\<close>

definition generate_clean_backgrounds ::
  "(error + (string list \<Rightarrow> string \<Rightarrow> bool \<Rightarrow> error + string list)) \<Rightarrow> (string \<rightharpoonup> string) \<Rightarrow>
     string list \<Rightarrow> string \<Rightarrow> error + string list" where
  "generate_clean_backgrounds import_helper getenv image_paths mineru_result_dir =
     (case import_helper of
        Inl e \<Rightarrow> Inl e
      | Inr generate_clean_backgrounds_with_inpainting \<Rightarrow>
          let volcengine_access_key = getenv ''VOLCENGINE_ACCESS_KEY'';
              volcengine_secret_key = getenv ''VOLCENGINE_SECRET_KEY'';
              use_inpainting = (truthy volcengine_access_key \<and> truthy volcengine_secret_key)
          in if \<not> use_inpainting then Inr image_paths
             else generate_clean_backgrounds_with_inpainting image_paths mineru_result_dir
                    use_inpainting)"

text \<open>An environment for examples, in which no variable is set.\<close>

definition no_environment :: "string \<rightharpoonup> string" where
  "no_environment k = None"

section \<open>Properties of endpoint resolution\<close>

lemma rstrip_chars_last: "rstrip_chars P s \<noteq> [] \<Longrightarrow> \<not> P (last (rstrip_chars P s))"
  unfolding rstrip_chars_def
  by (metis dropWhile_eq_Nil_conv hd_dropWhile last_rev rev_is_Nil_conv)

lemma rstrip_chars_id: "s = [] \<or> \<not> P (last s) \<Longrightarrow> rstrip_chars P s = s"
  unfolding rstrip_chars_def
  by (cases "rev s") (auto simp: last_rev [symmetric] simp del: last_rev)

lemma lstrip_chars_hd: "lstrip_chars P s \<noteq> [] \<Longrightarrow> \<not> P (hd (lstrip_chars P s))"
  unfolding lstrip_chars_def by (simp add: hd_dropWhile)

lemma lstrip_chars_id: "s = [] \<or> \<not> P (hd s) \<Longrightarrow> lstrip_chars P s = s"
  unfolding lstrip_chars_def by (cases s) auto

lemma rstrip_chars_prefix: "prefix (rstrip_chars P s) s"
  unfolding rstrip_chars_def
  by (metis prefix_def rev_append rev_rev_ident takeWhile_dropWhile_id)

lemma strip_id: "s \<noteq> [] \<Longrightarrow> \<not> is_space (hd s) \<Longrightarrow> \<not> is_space (last s) \<Longrightarrow> strip s = s"
  unfolding strip_def by (simp add: lstrip_chars_id rstrip_chars_id)

lemma strip_ends:
  assumes "strip s \<noteq> []"
  shows "\<not> is_space (hd (strip s))" and "\<not> is_space (last (strip s))"
proof -
  let ?l = "lstrip_chars is_space s"
  from assms have ne: "?l \<noteq> []" unfolding strip_def rstrip_chars_def by auto
  have pre: "prefix (strip s) ?l" unfolding strip_def by (rule rstrip_chars_prefix)
  then obtain zs where "?l = strip s @ zs" unfolding prefix_def by blast
  then have "hd ?l = hd (strip s @ zs)" by simp
  with assms have "hd (strip s) = hd ?l" by simp
  with lstrip_chars_hd [OF ne] show "\<not> is_space (hd (strip s))" by simp
  from assms show "\<not> is_space (last (strip s))"
    unfolding strip_def by (rule rstrip_chars_last)
qed

lemma default_endpoint_stripped: "strip DEFAULT_SELF_HOSTED_ENDPOINT = DEFAULT_SELF_HOSTED_ENDPOINT"
  by (rule strip_id) (simp_all add: DEFAULT_SELF_HOSTED_ENDPOINT_def is_space_def)

lemma default_endpoint_suffix: "endswith DEFAULT_SELF_HOSTED_ENDPOINT ''/file_parse''"
  by (simp add: DEFAULT_SELF_HOSTED_ENDPOINT_def endswith_def suffix_to_prefix)

lemma resolve_endswith: "endswith (resolve_self_hosted_endpoint s) ''/file_parse''"
  unfolding resolve_self_hosted_endpoint_def Let_def
  by (auto simp: endswith_def suffix_def)

lemma resolve_stripped: "strip (resolve_self_hosted_endpoint s) = resolve_self_hosted_endpoint s"
proof -
  let ?u = "if strip s = [] then DEFAULT_SELF_HOSTED_ENDPOINT else strip s"
  have u_ne: "?u \<noteq> []" by (simp add: DEFAULT_SELF_HOSTED_ENDPOINT_def)
  have u_hd: "\<not> is_space (hd ?u)" and u_last: "\<not> is_space (last ?u)"
    using strip_ends [of s] by (auto simp: DEFAULT_SELF_HOSTED_ENDPOINT_def is_space_def)
  show ?thesis
  proof (cases "endswith ?u ''/file_parse''")
    case True
    then have "resolve_self_hosted_endpoint s = ?u"
      by (simp add: resolve_self_hosted_endpoint_def Let_def)
    with u_ne u_hd u_last show ?thesis by (simp add: strip_id)
  next
    case False
    let ?r = "rstrip_chars (\<lambda>c. c = CHR ''/'') ?u"
    from False have eq: "resolve_self_hosted_endpoint s = ?r @ ''/file_parse''"
      by (simp add: resolve_self_hosted_endpoint_def Let_def)
    have "\<not> is_space (hd (?r @ ''/file_parse''))"
    proof (cases "?r = []")
      case True
      then show ?thesis by (simp add: is_space_def)
    next
      case False
      have "prefix ?r ?u" by (rule rstrip_chars_prefix)
      then obtain zs where "?u = ?r @ zs" unfolding prefix_def by blast
      then have "hd ?u = hd (?r @ zs)" by simp
      with False have "hd ?r = hd ?u" by simp
      with False u_hd show ?thesis by simp
    qed
    moreover have "\<not> is_space (last (?r @ ''/file_parse''))" by (simp add: is_space_def)
    ultimately show ?thesis unfolding eq by (intro strip_id) simp_all
  qed
qed

text \<open>
  C10. The resolved endpoint always ends in \<open>/file_parse\<close>. A blank input (empty after
  stripping whitespace) yields the default endpoint; an input that, once stripped, already
  ends in \<open>/file_parse\<close> is returned stripped and otherwise unchanged; any other input has its
  trailing slashes removed and \<open>/file_parse\<close> appended. The function is idempotent.
\<close>

theorem resolve_self_hosted_endpoint_spec:
  "endswith (resolve_self_hosted_endpoint s) ''/file_parse''
   \<and> (strip s = [] \<longrightarrow> resolve_self_hosted_endpoint s = DEFAULT_SELF_HOSTED_ENDPOINT)
   \<and> (endswith (strip s) ''/file_parse'' \<longrightarrow> resolve_self_hosted_endpoint s = strip s)
   \<and> (strip s \<noteq> [] \<and> \<not> endswith (strip s) ''/file_parse'' \<longrightarrow>
        resolve_self_hosted_endpoint s = rstrip_chars (\<lambda>c. c = CHR ''/'') (strip s) @ ''/file_parse'')
   \<and> resolve_self_hosted_endpoint (resolve_self_hosted_endpoint s) = resolve_self_hosted_endpoint s"
proof -
  have a: "strip s = [] \<longrightarrow> resolve_self_hosted_endpoint s = DEFAULT_SELF_HOSTED_ENDPOINT"
    using default_endpoint_suffix by (simp add: resolve_self_hosted_endpoint_def)
  have b: "endswith (strip s) ''/file_parse'' \<longrightarrow> resolve_self_hosted_endpoint s = strip s"
    by (auto simp: resolve_self_hosted_endpoint_def Let_def endswith_def)
  have c: "strip s \<noteq> [] \<and> \<not> endswith (strip s) ''/file_parse'' \<longrightarrow>
        resolve_self_hosted_endpoint s = rstrip_chars (\<lambda>c. c = CHR ''/'') (strip s) @ ''/file_parse''"
    by (simp add: resolve_self_hosted_endpoint_def)
  let ?o = "resolve_self_hosted_endpoint s"
  have ne: "?o \<noteq> []" using resolve_endswith [of s] by (auto simp: endswith_def suffix_def)
  have d: "resolve_self_hosted_endpoint ?o = ?o"
    using resolve_endswith [of s] ne
    by (simp add: resolve_self_hosted_endpoint_def [of ?o] resolve_stripped)
  from a b c d resolve_endswith show ?thesis by blast
qed

theorem resolve_self_hosted_endpoint_spec_witness:
  "resolve_self_hosted_endpoint ''  '' = ''http://ai23.labs.hpecorp.net:8023/file_parse''
   \<and> resolve_self_hosted_endpoint '' http://h:1/file_parse '' = ''http://h:1/file_parse''
   \<and> resolve_self_hosted_endpoint ''http://h:1//'' = ''http://h:1/file_parse''"
  using resolve_self_hosted_endpoint_spec [of "''  ''"]
        resolve_self_hosted_endpoint_spec [of "'' http://h:1/file_parse ''"]
        resolve_self_hosted_endpoint_spec [of "''http://h:1//''"]
  by (simp add: strip_def rstrip_chars_def lstrip_chars_def is_space_def endswith_def
        suffix_to_prefix DEFAULT_SELF_HOSTED_ENDPOINT_def)

section \<open>Properties of colour parsing\<close>

lemma hex_digit_facts:
  assumes "is_hex_digit c"
  shows "hex_digit_value c \<noteq> None" "\<not> int_space c" "c \<noteq> CHR ''+''" "c \<noteq> CHR ''-''"
    "c \<noteq> CHR ''_''" "c \<noteq> CHR ''x''" "c \<noteq> CHR ''X''" "c \<noteq> CHR ''#''"
  using assms unfolding is_hex_digit_def hex_digit_value_def int_space_def
  by (auto simp: Let_def)

lemma not_hex_digit_value: "\<not> is_hex_digit c \<Longrightarrow> hex_digit_value c = None"
  unfolding is_hex_digit_def hex_digit_value_def Let_def
  by auto

lemma py_int16_ascii_pair:
  assumes a: "is_hex_digit a" and b: "is_hex_digit b"
  shows "py_int16_ascii [a, b] = Some (16 * the (hex_digit_value a) + the (hex_digit_value b))"
proof -
  from hex_digit_facts(1) [OF a] obtain x where x: "hex_digit_value a = Some x" by auto
  from hex_digit_facts(1) [OF b] obtain y where y: "hex_digit_value b = Some y" by auto
  show ?thesis
    using hex_digit_facts(2-7) [OF a] hex_digit_facts(2-7) [OF b] x y
    by (simp add: py_int16_ascii_def)
qed

lemma py_int16_ascii_stray_fst: "stray_char a \<Longrightarrow> py_int16_ascii [a, b] = None"
  by (simp add: py_int16_ascii_def stray_char_def not_hex_digit_value)

lemma py_int16_ascii_stray_snd:
  assumes "stray_char b" shows "py_int16_ascii [a, b] = None"
proof -
  from assms have nb: "hex_digit_value b = None" "\<not> int_space b" "b \<noteq> CHR ''+''" "b \<noteq> CHR ''-''"
    by (simp_all add: stray_char_def not_hex_digit_value)
  show ?thesis
  proof (cases "hex_digit_value a")
    case None
    with nb show ?thesis by (simp add: py_int16_ascii_def)
  next
    case (Some x)
    then have "is_hex_digit a" using not_hex_digit_value by fastforce
    from hex_digit_facts(2-7) [OF this] Some nb show ?thesis
      by (simp add: py_int16_ascii_def)
  qed
qed

text \<open>From code points to the characters of the ASCII string.\<close>

lemma of_char_char_of_small: "n < 256 \<Longrightarrow> (of_char (char_of n) :: nat) = n"
  by simp

lemma to_ascii_hex:
  assumes "is_hex_code n"
  shows "is_hex_digit (to_ascii td n)" and "hex_digit_value (to_ascii td n) = Some (hex_value n)"
proof -
  from assms have small: "n < 128" by (auto simp: is_hex_code_def)
  then have oc: "(of_char (to_ascii td n) :: nat) = n" by (simp add: to_ascii_def)
  from assms oc show "is_hex_digit (to_ascii td n)" by (simp add: is_hex_digit_def is_hex_code_def)
  from assms oc show "hex_digit_value (to_ascii td n) = Some (hex_value n)"
    by (auto simp: hex_digit_value_def hex_value_def is_hex_code_def)
qed

lemma char_eq_of_char: "(c = d) = ((of_char c :: nat) = of_char d)"
  by auto

lemma to_ascii_stray:
  assumes "stray td n"
  shows "stray_char (to_ascii td n)"
proof (cases "n < 128")
  case True
  then have oc: "(of_char (to_ascii td n) :: nat) = n" by (simp add: to_ascii_def)
  from assms True oc show ?thesis
    by (auto simp: stray_def stray_char_def is_hex_digit_def is_hex_code_def int_space_def
        is_int_space_def char_eq_of_char [of "to_ascii td n"])
next
  case False
  with assms have "to_ascii td n = CHR ''?''"
    by (auto simp: stray_def to_ascii_def is_int_space_def is_decimal_def split: option.splits)
  then show ?thesis
    by (simp add: stray_char_def is_hex_digit_def int_space_def)
qed

lemma py_int16_pair:
  "is_hex_code a \<Longrightarrow> is_hex_code b \<Longrightarrow> py_int16 td [a, b] = Some (hex_pair a b)"
  using py_int16_ascii_pair [OF to_ascii_hex(1) to_ascii_hex(1), of a b td td]
  by (simp add: py_int16_def hex_pair_def to_ascii_hex(2))

lemma py_int16_stray: "stray td a \<or> stray td b \<Longrightarrow> py_int16 td [a, b] = None"
  using py_int16_ascii_stray_fst [OF to_ascii_stray, of td a] py_int16_ascii_stray_snd [OF to_ascii_stray, of td b]
  by (auto simp: py_int16_def)

lemma lstrip_hash_hex: "matches_hex6 s \<Longrightarrow> lstrip_chars (\<lambda>c. c = 35) s = s"
  unfolding matches_hex6_def
  by (cases s) (auto simp: lstrip_chars_def is_hex_code_def)

lemma six_chars:
  assumes "length cs = 6"
  obtains a b c d e f where "cs = [a, b, c, d, e, f]"
  using assms by (auto simp: length_Suc_conv eval_nat_numeral)

lemma parse_color_hex6:
  assumes "matches_hex6 (lstrip_chars (\<lambda>c. c = 35) s)"
  shows "parse_color td (Some s) =
    (let cs = lstrip_chars (\<lambda>c. c = 35) s in
      Some (hex_pair (cs ! 0) (cs ! 1), hex_pair (cs ! 2) (cs ! 3), hex_pair (cs ! 4) (cs ! 5)))"
proof -
  let ?cs = "lstrip_chars (\<lambda>c. c = 35) s"
  from assms have len: "length ?cs = 6" and hx: "list_all is_hex_code ?cs"
    by (simp_all add: matches_hex6_def)
  from len obtain a b c d e f where cs: "?cs = [a, b, c, d, e, f]" by (rule six_chars)
  from len have "?cs \<noteq> []" by auto
  then have ne: "s \<noteq> []" by (auto simp: lstrip_chars_def)
  from hx cs have h: "is_hex_code a" "is_hex_code b" "is_hex_code c" "is_hex_code d"
    "is_hex_code e" "is_hex_code f" by simp_all
  show ?thesis
    using ne by (simp add: parse_color_def cs Let_def py_int16_pair h)
qed

lemma parse_color_stray:
  assumes "\<exists>c \<in> set (lstrip_chars (\<lambda>c. c = 35) s). stray td c"
  shows "parse_color td (Some s) = None"
proof (cases "length (lstrip_chars (\<lambda>c. c = 35) s) = 6")
  case False
  then show ?thesis by (simp add: parse_color_def Let_def)
next
  case True
  let ?cs = "lstrip_chars (\<lambda>c. c = 35) s"
  from True obtain a b c d e f where cs: "?cs = [a, b, c, d, e, f]" by (rule six_chars)
  from assms cs have "(stray td a \<or> stray td b) \<or> (stray td c \<or> stray td d) \<or> (stray td e \<or> stray td f)"
    by auto
  then have "py_int16 td [a, b] = None \<or> py_int16 td [c, d] = None \<or> py_int16 td [e, f] = None"
    by (elim disjE) (simp_all add: py_int16_stray)
  then show ?thesis
    by (auto simp: parse_color_def cs Let_def split: option.splits)
qed

text \<open>
  The model follows the interpreter beyond ASCII: six fullwidth digits are read as a colour.
\<close>

lemma parse_color_fullwidth:
  "parse_color fullwidth_decimals (Some [65297, 65298, 65299, 65300, 65301, 65302]) = Some (18, 52, 86)"
  by (simp add: parse_color_def lstrip_chars_def py_int16_def py_int16_ascii_def to_ascii_def
      unicode_isspace_def fullwidth_decimals_def int_space_def hex_digit_value_def char_of_eq_iff)

text \<open>
  C4, the claim as stated fails: \<open>#FF0000\<close> does not match \<open>[0-9A-Fa-f]{6}\<close>, and yet
  \<open>_parse_color\<close> returns a colour for it, because leading \<open>#\<close> characters are removed first.
\<close>

theorem parse_color_counterexample:
  "\<not> matches_hex6 (ustr ''#FF0000'')
   \<and> parse_color no_decimals (Some (ustr ''#FF0000'')) = Some (255, 0, 0)"
  by (simp add: matches_hex6_def ustr_def is_hex_code_def parse_color_def lstrip_chars_def
      py_int16_def py_int16_ascii_def to_ascii_def int_space_def hex_digit_value_def char_of_eq_iff)

text \<open>
  C4, amended. Whatever the Unicode table: \<open>_parse_color\<close> returns \<open>None\<close> for \<open>None\<close> and for
  the empty string, and for every string that, once its leading \<open>#\<close> characters are removed,
  does not have exactly six characters or contains a character that is neither a
  hexadecimal digit, nor a decimal digit of another script, nor whitespace, nor a sign.
  For every string that matches \<open>[0-9A-Fa-f]{6}\<close> once its leading \<open>#\<close> characters are
  removed (removing nothing from a string that matches already), it returns the triple of
  the values of the three pairs of hexadecimal digits.
\<close>

theorem parse_color_amended:
  "parse_color td None = None \<and> parse_color td (Some []) = None
   \<and> (length (lstrip_chars (\<lambda>c. c = 35) s) \<noteq> 6 \<longrightarrow> parse_color td (Some s) = None)
   \<and> ((\<exists>c \<in> set (lstrip_chars (\<lambda>c. c = 35) s). stray td c) \<longrightarrow> parse_color td (Some s) = None)
   \<and> (matches_hex6 (lstrip_chars (\<lambda>c. c = 35) s) \<longrightarrow>
        parse_color td (Some s) =
          (let cs = lstrip_chars (\<lambda>c. c = 35) s in
           Some (hex_pair (cs ! 0) (cs ! 1), hex_pair (cs ! 2) (cs ! 3), hex_pair (cs ! 4) (cs ! 5))))
   \<and> (matches_hex6 s \<longrightarrow> lstrip_chars (\<lambda>c. c = 35) s = s)"
proof -
  have "parse_color td None = None" "parse_color td (Some []) = None"
    by (simp_all add: parse_color_def)
  moreover have "length (lstrip_chars (\<lambda>c. c = 35) s) \<noteq> 6 \<longrightarrow> parse_color td (Some s) = None"
    by (simp add: parse_color_def Let_def)
  ultimately show ?thesis
    using parse_color_stray [of s td] parse_color_hex6 [of s td] lstrip_hash_hex [of s] by blast
qed

theorem parse_color_amended_witness:
  "parse_color fullwidth_decimals (Some (ustr ''12345'')) = None
   \<and> parse_color fullwidth_decimals (Some (ustr ''GG0000'')) = None
   \<and> parse_color fullwidth_decimals (Some [48, 48, 48, 48, 48, 233]) = None
   \<and> parse_color fullwidth_decimals (Some (ustr ''#ff8000'')) = Some (255, 128, 0)
   \<and> parse_color fullwidth_decimals (Some (ustr ''0A0b0C'')) = Some (10, 11, 12)"
  using parse_color_amended [of fullwidth_decimals "ustr ''12345''"]
    parse_color_amended [of fullwidth_decimals "ustr ''GG0000''"]
    parse_color_amended [of fullwidth_decimals "[48, 48, 48, 48, 48, 233]"]
    parse_color_amended [of fullwidth_decimals "ustr ''#ff8000''"]
    parse_color_amended [of fullwidth_decimals "ustr ''0A0b0C''"]
  by (simp add: ustr_def lstrip_chars_def matches_hex6_def is_hex_code_def stray_def
      is_int_space_def is_decimal_def unicode_isspace_def fullwidth_decimals_def
      hex_pair_def hex_value_def)

section \<open>Properties of background synthesis\<close>

text \<open>
  C5, the claim as stated fails: the helper module is imported before the credentials are
  read, so when that import raises, \<open>generate_clean_backgrounds\<close> raises too, although no
  credential is set.
\<close>

theorem generate_clean_backgrounds_counterexample:
  "no_environment ''VOLCENGINE_ACCESS_KEY'' = None
   \<and> no_environment ''VOLCENGINE_SECRET_KEY'' = None
   \<and> generate_clean_backgrounds
         (Inl (ImportError ''No module named export_service_inpainting'')) no_environment
         [''page_000.png'', ''page_001.png''] ''out''
       = Inl (ImportError ''No module named export_service_inpainting'')"
  by (simp add: generate_clean_backgrounds_def no_environment_def)

text \<open>
  C5, amended. When the helper module can be imported and the access key or the secret key
  is missing from the environment (or empty), \<open>generate_clean_backgrounds\<close> returns the list
  of page images it was given, and raises nothing.
\<close>

theorem generate_clean_backgrounds_identity:
  assumes "import_helper = Inr helper"
    and "\<not> truthy (getenv ''VOLCENGINE_ACCESS_KEY'') \<or> \<not> truthy (getenv ''VOLCENGINE_SECRET_KEY'')"
  shows "generate_clean_backgrounds import_helper getenv image_paths mineru_result_dir = Inr image_paths"
  using assms by (auto simp: generate_clean_backgrounds_def)

theorem generate_clean_backgrounds_identity_witness:
  "generate_clean_backgrounds (Inr (\<lambda>ps d u. Inl (RuntimeError ''unreachable''))) no_environment
     [''page_000.png'', ''page_001.png''] ''out'' = Inr [''page_000.png'', ''page_001.png'']"
  by (rule generate_clean_backgrounds_identity) (simp_all add: truthy_def no_environment_def)

section \<open>Properties of style extraction\<close>

lemma split_on_single: "sep \<notin> set s \<Longrightarrow> split_on sep s = [s]"
  by (induction s) auto

text \<open>
  C6, the claim as stated fails: the existence test of the template path comes before the
  \<open>try\<close> statement, so for a template directory whose name has 256 characters, for which
  the test raises \<open>OSError\<close>, \<open>extract_styles\<close> raises that error to its caller.
\<close>

theorem extract_styles_counterexample:
  "extract_styles no_decimals empty_fs_exists (Inl (ImportError ''No module named inventory''))
     (replicate 256 CHR ''a'') ''non-title-slide.pptx''
   = Inl (OSError ''File name too long'')"
proof -
  have ne: "replicate 256 CHR ''a'' \<noteq> ''.''" "replicate 256 CHR ''a'' \<noteq> []"
  proof -
    show "replicate 256 CHR ''a'' \<noteq> ''.''"
    proof
      assume "replicate 256 CHR ''a'' = ''.''"
      then have "length (replicate 256 CHR ''a'') = length ''.''" by (rule arg_cong)
      then show False by simp
    qed
    show "replicate 256 CHR ''a'' \<noteq> []" by simp
  qed
  have "CHR ''/'' \<notin> set (replicate 256 CHR ''a'')" by simp
  with ne have "path_parts (replicate 256 CHR ''a'') = [replicate 256 CHR ''a'']"
    by (simp add: path_parts_def split_on_single)
  then have "parts (path_join (parse_path (replicate 256 CHR ''a'')) ''non-title-slide.pptx'')
      = [replicate 256 CHR ''a'', ''non-title-slide.pptx'']"
    by (simp add: path_join_def parse_path_def path_parts_def Let_def)
  then have "empty_fs_exists (path_join (parse_path (replicate 256 CHR ''a'')) ''non-title-slide.pptx'')
      = Inl (OSError ''File name too long'')"
    by (simp add: empty_fs_exists_def)
  then show ?thesis by (simp add: extract_styles_def Let_def)
qed

text \<open>
  C6, amended. Whenever the existence test of the template path does not itself raise,
  \<open>extract_styles\<close> raises nothing; and when the content-slide template does not exist, when
  importing the inventory module raises, or when \<open>extract_text_inventory\<close> raises any
  exception, it returns the brand defaults: title font \<open>HPE Graphik Semibold\<close>, bold; body
  font \<open>HPE Graphik\<close>, not bold.
\<close>

theorem extract_styles_defaults:
  assumes "path_exists (path_join (parse_path template_dir) content_template) = Inr found"
  shows "(\<exists>config. extract_styles td path_exists import_inventory template_dir content_template
                    = Inr config)
     \<and> (\<not> found \<or> (\<exists>e. import_inventory = Inl e)
          \<or> (\<exists>f e. import_inventory = Inr f
                 \<and> f (path_join (parse_path template_dir) content_template) = Inl e) \<longrightarrow>
          extract_styles td path_exists import_inventory template_dir content_template
            = Inr get_hpe_default_style)
     \<and> name (title_font get_hpe_default_style) = ''HPE Graphik Semibold''
     \<and> bold (title_font get_hpe_default_style) = True
     \<and> name (body_font get_hpe_default_style) = ''HPE Graphik''
     \<and> bold (body_font get_hpe_default_style) = False"
proof -
  let ?tp = "path_join (parse_path template_dir) content_template"
  let ?E = "extract_styles td path_exists import_inventory template_dir content_template"
  have total: "\<exists>config. ?E = Inr config"
    using assms by (auto simp: extract_styles_def Let_def split: sum.splits error.splits)
  have dflt: "?E = Inr get_hpe_default_style"
    if "\<not> found \<or> (\<exists>e. import_inventory = Inl e)
          \<or> (\<exists>f e. import_inventory = Inr f \<and> f ?tp = Inl e)"
  proof (cases found)
    case False
    with assms show ?thesis by (simp add: extract_styles_def)
  next
    case True
    with that obtain e where "extract_styles_body td import_inventory ?tp = Inl e"
      by (auto simp: extract_styles_body_def)
    with True assms show ?thesis
      by (simp add: extract_styles_def split: error.splits)
  qed
  from total dflt show ?thesis by (simp add: get_hpe_default_style_def)
qed

theorem extract_styles_defaults_witness:
  "extract_styles no_decimals empty_fs_exists (Inl (ImportError ''no inventory'')) ''templates''
     ''non-title-slide.pptx'' = Inr get_hpe_default_style
   \<and> extract_styles no_decimals (\<lambda>p. Inr True) (Inr (\<lambda>p. Inl (OtherException ''bad file'')))
        ''templates'' ''non-title-slide.pptx'' = Inr get_hpe_default_style
   \<and> extract_styles no_decimals (\<lambda>p. Inr True) (Inl (ImportError ''no inventory''))
        ''templates'' ''non-title-slide.pptx'' = Inr get_hpe_default_style"
proof -
  have e: "empty_fs_exists (path_join (parse_path ''templates'') ''non-title-slide.pptx'') = Inr False"
    by (simp add: empty_fs_exists_def path_join_def parse_path_def path_parts_def Let_def)
  have t: "(\<lambda>p. Inr True :: error + bool) (path_join (parse_path ''templates'') ''non-title-slide.pptx'')
      = Inr True" by simp
  from extract_styles_defaults [where path_exists = empty_fs_exists and template_dir = "''templates''"
        and content_template = "''non-title-slide.pptx''" and found = False and td = no_decimals
        and import_inventory = "Inl (ImportError ''no inventory'')", OF e]
    extract_styles_defaults [where path_exists = "\<lambda>p. Inr True" and template_dir = "''templates''"
        and content_template = "''non-title-slide.pptx''" and found = True and td = no_decimals
        and import_inventory = "Inr (\<lambda>p. Inl (OtherException ''bad file''))", OF t]
    extract_styles_defaults [where path_exists = "\<lambda>p. Inr True" and template_dir = "''templates''"
        and content_template = "''non-title-slide.pptx''" and found = True and td = no_decimals
        and import_inventory = "Inl (ImportError ''no inventory'')", OF t]
  show ?thesis by simp
qed

lemma scan_inventory_shapes:
  "scan_inventory td inventory = scan_shapes td (inventory_shapes inventory) scan_init"
proof -
  have inner: "fold (\<lambda>(shape_key, shape_data). scan_shape td shape_data) sd st
                 = fold (scan_shape td) (map snd sd) st" for sd st
    by (induction sd arbitrary: st) (auto split: prod.splits)
  have "fold (\<lambda>(slide_key, slide_data) st.
               fold (\<lambda>(shape_key, shape_data). scan_shape td shape_data) slide_data st) iv st
          = fold (scan_shape td) (inventory_shapes iv) st" for iv st
    by (induction iv arbitrary: st) (auto simp: inventory_shapes_def inner)
  then show ?thesis by (simp add: scan_inventory_def scan_shapes_def)
qed

lemma scan_shape_title_kept:
  "truthy (title_font_name st) \<Longrightarrow> title_slot (scan_shape td sh st) = title_slot st"
  by (auto simp: scan_shape_def title_slot_def Let_def split: list.splits)

lemma scan_shape_body_kept:
  "truthy (body_font_name st) \<Longrightarrow> body_slot (scan_shape td sh st) = body_slot st"
  by (auto simp: scan_shape_def body_slot_def Let_def split: list.splits)

lemma title_body_disjoint: "is_title_type t \<Longrightarrow> \<not> is_body_type t"
  by (auto simp: is_title_type_def is_body_type_def)

lemma scan_shape_title_take:
  "\<not> truthy (title_font_name st) \<Longrightarrow> usable_run sh \<Longrightarrow> is_title_type (placeholder_type sh) \<Longrightarrow>
     title_slot (scan_shape td sh st) = slot_of td (Some sh) \<and> truthy (title_font_name (scan_shape td sh st))"
  by (auto simp: scan_shape_def title_slot_def slot_of_def usable_run_def Let_def split: list.splits)

lemma scan_shape_title_skip:
  "\<not> (usable_run sh \<and> is_title_type (placeholder_type sh)) \<Longrightarrow>
     title_slot (scan_shape td sh st) = title_slot st"
  by (auto simp: scan_shape_def title_slot_def usable_run_def Let_def split: list.splits)

lemma scan_shape_body_take:
  "\<not> truthy (body_font_name st) \<Longrightarrow> usable_run sh \<Longrightarrow> is_body_type (placeholder_type sh) \<Longrightarrow>
     body_slot (scan_shape td sh st) = slot_of td (Some sh) \<and> truthy (body_font_name (scan_shape td sh st))"
  by (auto simp: scan_shape_def body_slot_def slot_of_def usable_run_def Let_def
      dest: title_body_disjoint split: list.splits)

lemma scan_shape_body_skip:
  "\<not> (usable_run sh \<and> is_body_type (placeholder_type sh)) \<Longrightarrow>
     body_slot (scan_shape td sh st) = body_slot st"
  by (auto simp: scan_shape_def body_slot_def usable_run_def Let_def split: list.splits)

lemma title_slot_truthy: "title_slot st = title_slot st' \<Longrightarrow> title_font_name st = title_font_name st'"
  by (simp add: title_slot_def)

lemma body_slot_truthy: "body_slot st = body_slot st' \<Longrightarrow> body_font_name st = body_font_name st'"
  by (simp add: body_slot_def)

lemma scan_shapes_title:
  "title_slot (scan_shapes td shapes st) =
     (if truthy (title_font_name st) then title_slot st
      else case first_title shapes of None \<Rightarrow> title_slot st | Some sh \<Rightarrow> slot_of td (Some sh))"
proof (induction shapes arbitrary: st)
  case Nil
  then show ?case by (simp add: scan_shapes_def first_title_def)
next
  case (Cons sh shapes)
  have step: "scan_shapes td (sh # shapes) st = scan_shapes td shapes (scan_shape td sh st)"
    by (simp add: scan_shapes_def)
  show ?case
  proof (cases "truthy (title_font_name st)")
    case True
    from scan_shape_title_kept [OF True, where sh = sh and td = td]
    have k: "title_slot (scan_shape td sh st) = title_slot st" .
    from k have "title_font_name (scan_shape td sh st) = title_font_name st"
      by (rule title_slot_truthy)
    with True have "truthy (title_font_name (scan_shape td sh st))" by simp
    with True k show ?thesis unfolding step Cons.IH by simp
  next
    case False
    show ?thesis
    proof (cases "usable_run sh \<and> is_title_type (placeholder_type sh)")
      case True
      with scan_shape_title_take [OF False, where sh = sh and td = td] False show ?thesis
        unfolding step Cons.IH by (simp add: first_title_def)
    next
      case nt: False
      from scan_shape_title_skip [OF nt, where st = st and td = td]
      have k: "title_slot (scan_shape td sh st) = title_slot st" .
      from k have "title_font_name (scan_shape td sh st) = title_font_name st"
        by (rule title_slot_truthy)
      with False have "\<not> truthy (title_font_name (scan_shape td sh st))" by simp
      with False k nt show ?thesis unfolding step Cons.IH
        by (auto simp: first_title_def split: option.splits)
    qed
  qed
qed

lemma scan_shapes_body:
  "body_slot (scan_shapes td shapes st) =
     (if truthy (body_font_name st) then body_slot st
      else case first_body shapes of None \<Rightarrow> body_slot st | Some sh \<Rightarrow> slot_of td (Some sh))"
proof (induction shapes arbitrary: st)
  case Nil
  then show ?case by (simp add: scan_shapes_def first_body_def)
next
  case (Cons sh shapes)
  have step: "scan_shapes td (sh # shapes) st = scan_shapes td shapes (scan_shape td sh st)"
    by (simp add: scan_shapes_def)
  show ?case
  proof (cases "truthy (body_font_name st)")
    case True
    from scan_shape_body_kept [OF True, where sh = sh and td = td]
    have k: "body_slot (scan_shape td sh st) = body_slot st" .
    from k have "body_font_name (scan_shape td sh st) = body_font_name st"
      by (rule body_slot_truthy)
    with True have "truthy (body_font_name (scan_shape td sh st))" by simp
    with True k show ?thesis unfolding step Cons.IH by simp
  next
    case False
    show ?thesis
    proof (cases "usable_run sh \<and> is_body_type (placeholder_type sh)")
      case True
      with scan_shape_body_take [OF False, where sh = sh and td = td] False show ?thesis
        unfolding step Cons.IH by (simp add: first_body_def)
    next
      case nt: False
      from scan_shape_body_skip [OF nt, where st = st and td = td]
      have k: "body_slot (scan_shape td sh st) = body_slot st" .
      from k have "body_font_name (scan_shape td sh st) = body_font_name st"
        by (rule body_slot_truthy)
      with False have "\<not> truthy (body_font_name (scan_shape td sh st))" by simp
      with False k nt show ?thesis unfolding step Cons.IH
        by (auto simp: first_body_def split: option.splits)
    qed
  qed
qed

lemma slot_of_find_truthy:
  "find (\<lambda>sh. usable_run sh \<and> Q sh) shapes = Some sh \<Longrightarrow> truthy (fst (slot_of td (Some sh)))"
proof -
  assume "find (\<lambda>sh. usable_run sh \<and> Q sh) shapes = Some sh"
  then have "usable_run sh" by (induction shapes) (auto split: if_splits)
  then show ?thesis by (auto simp: slot_of_def usable_run_def split: list.splits)
qed

lemma build_config_title:
  assumes "title_slot st = slot_of td (first_title shapes)"
  shows "title_font (build_config p st) = font_of_slot ''HPE Graphik Semibold'' True (slot_of td (first_title shapes))"
proof (cases "first_title shapes")
  case None
  with assms show ?thesis
    by (simp add: build_config_def font_of_slot_def slot_of_def title_slot_def truthy_def)
next
  case (Some sh)
  then have t: "truthy (fst (slot_of td (Some sh)))"
    unfolding first_title_def by (rule slot_of_find_truthy)
  obtain n b c where sl: "slot_of td (Some sh) = (n, b, c)" by (cases "slot_of td (Some sh)")
  with t obtain v where n: "n = Some v" by (cases n) (auto simp: truthy_def)
  from assms Some sl n t show ?thesis
    by (simp add: build_config_def font_of_slot_def title_slot_def)
qed

lemma build_config_body:
  assumes "body_slot st = slot_of td (first_body shapes)"
  shows "body_font (build_config p st) = font_of_slot ''HPE Graphik'' False (slot_of td (first_body shapes))"
proof (cases "first_body shapes")
  case None
  with assms show ?thesis
    by (simp add: build_config_def font_of_slot_def slot_of_def body_slot_def truthy_def)
next
  case (Some sh)
  then have t: "truthy (fst (slot_of td (Some sh)))"
    unfolding first_body_def by (rule slot_of_find_truthy)
  obtain n b c where sl: "slot_of td (Some sh) = (n, b, c)" by (cases "slot_of td (Some sh)")
  with t obtain v where n: "n = Some v" by (cases n) (auto simp: truthy_def)
  from assms Some sl n t show ?thesis
    by (simp add: build_config_def font_of_slot_def body_slot_def)
qed

text \<open>
  C9. Scanning an inventory in iteration order leaves, as title font name, bold flag and
  colour, those of the first paragraph of the first title placeholder (\<open>TITLE\<close> or
  \<open>CENTER_TITLE\<close>) whose first paragraph names a font, and as body font those of the first
  such body placeholder (\<open>BODY\<close>, \<open>SUBTITLE\<close> or \<open>FOOTER\<close>); a category without such a
  placeholder stays unset. Once a category is set, no further shape changes it. The
  resulting configuration has, for each category, the font so found (bold by the category's
  default when the paragraph carries no bold flag), or the category's default font.
\<close>

theorem scan_first_match_wins:
  "title_slot (scan_inventory td inventory) = slot_of td (first_title (inventory_shapes inventory))
   \<and> body_slot (scan_inventory td inventory) = slot_of td (first_body (inventory_shapes inventory))
   \<and> (truthy (title_font_name st) \<longrightarrow> title_slot (scan_shape td sh st) = title_slot st)
   \<and> (truthy (body_font_name st) \<longrightarrow> body_slot (scan_shape td sh st) = body_slot st)
   \<and> title_font (build_config p (scan_inventory td inventory))
       = font_of_slot ''HPE Graphik Semibold'' True (slot_of td (first_title (inventory_shapes inventory)))
   \<and> body_font (build_config p (scan_inventory td inventory))
       = font_of_slot ''HPE Graphik'' False (slot_of td (first_body (inventory_shapes inventory)))"
proof -
  have t: "title_slot (scan_inventory td inventory) = slot_of td (first_title (inventory_shapes inventory))"
    unfolding scan_inventory_shapes scan_shapes_title
    by (simp add: scan_init_def truthy_def title_slot_def slot_of_def split: option.splits)
  have b: "body_slot (scan_inventory td inventory) = slot_of td (first_body (inventory_shapes inventory))"
    unfolding scan_inventory_shapes scan_shapes_body
    by (simp add: scan_init_def truthy_def body_slot_def slot_of_def split: option.splits)
  from t b build_config_title [OF t] build_config_body [OF b] show ?thesis
    using scan_shape_title_kept [where st = st and td = td and sh = sh]
      scan_shape_body_kept [where st = st and td = td and sh = sh] by simp
qed


theorem scan_first_match_wins_witness:
  "title_slot (scan_inventory no_decimals
      [(''slide-0'',
        [(''shape-0'', \<lparr>placeholder_type = Some ''TITLE'',
            paragraphs = [\<lparr>font_name = Some ''A'', para_bold = Some True, color = Some (ustr ''FF0000'')\<rparr>]\<rparr>),
         (''shape-1'', \<lparr>placeholder_type = Some ''CENTER_TITLE'',
            paragraphs = [\<lparr>font_name = Some ''B'', para_bold = None, color = None\<rparr>]\<rparr>)])])
     = (Some ''A'', Some True, Some (255, 0, 0))
   \<and> title_slot (scan_shape no_decimals
        \<lparr>placeholder_type = Some ''TITLE'',
           paragraphs = [\<lparr>font_name = Some ''B'', para_bold = None, color = None\<rparr>]\<rparr>
        \<lparr>title_font_name = Some ''A'', title_font_bold = None, title_font_color = None,
           body_font_name = Some ''C'', body_font_bold = None, body_font_color = None\<rparr>)
     = (Some ''A'', None, None)
   \<and> body_slot (scan_shape no_decimals
        \<lparr>placeholder_type = Some ''TITLE'',
           paragraphs = [\<lparr>font_name = Some ''B'', para_bold = None, color = None\<rparr>]\<rparr>
        \<lparr>title_font_name = Some ''A'', title_font_bold = None, title_font_color = None,
           body_font_name = Some ''C'', body_font_bold = None, body_font_color = None\<rparr>)
     = (Some ''C'', None, None)"
  using scan_first_match_wins [of no_decimals
      "[(''slide-0'',
        [(''shape-0'', \<lparr>placeholder_type = Some ''TITLE'',
            paragraphs = [\<lparr>font_name = Some ''A'', para_bold = Some True, color = Some (ustr ''FF0000'')\<rparr>]\<rparr>),
         (''shape-1'', \<lparr>placeholder_type = Some ''CENTER_TITLE'',
            paragraphs = [\<lparr>font_name = Some ''B'', para_bold = None, color = None\<rparr>]\<rparr>)])]"
      "\<lparr>title_font_name = Some ''A'', title_font_bold = None, title_font_color = None,
           body_font_name = Some ''C'', body_font_bold = None, body_font_color = None\<rparr>"
      "\<lparr>placeholder_type = Some ''TITLE'',
           paragraphs = [\<lparr>font_name = Some ''B'', para_bold = None, color = None\<rparr>]\<rparr>" "[]"]
  by (simp add: truthy_def title_slot_def body_slot_def slot_of_def first_title_def
      inventory_shapes_def usable_run_def is_title_type_def parse_color_def lstrip_chars_def
      py_int16_def py_int16_ascii_def to_ascii_def ustr_def int_space_def hex_digit_value_def
      char_of_eq_iff)

section \<open>Properties of the file system and of safe unpacking\<close>

lemma split_on_no_sep: "c \<in> set (split_on sep s) \<Longrightarrow> sep \<notin> set c"
proof (induction s arbitrary: c)
  case Nil
  then show ?case by simp
next
  case (Cons x xs)
  then show ?case
    by (cases "split_on sep xs") (auto split: if_splits)
qed

lemma split_on_not_Nil: "split_on sep s \<noteq> []"
  by (induction s) (auto split: list.splits)


lemma valid_path_sanitize: "valid_path (sanitize s)"
  by (auto simp: valid_path_def sanitize_def list_all_iff dest: split_on_no_sep)

















lemma check_members_ok:
  "check_members out zf = Inr () \<Longrightarrow> \<forall>m \<in> set zf. \<not> unsafe_member out m"
  by (induction zf) (auto split: if_splits)




lemma lookup_fresh_target:
  "lookup (fresh cs w) cs = Some (case w of None \<Rightarrow> Dir [] | Some d \<Rightarrow> File d)"
  by (induction cs) (auto split: option.splits)

lemma map_of_append_fresh:
  "map_of es c = None \<Longrightarrow> ([c \<mapsto> n] ++ map_of es) q = (if q = c then Some n else map_of es q)"
  by (auto simp: map_add_def split: option.splits)



lemma mk_lookup_target:
  "mk t w n = Inr n' \<Longrightarrow>
     (case w of None \<Rightarrow> \<exists>es. lookup n' t = Some (Dir es) | Some d \<Rightarrow> lookup n' t = Some (File d))"
proof (induction t arbitrary: n n')
  case Nil
  then show ?case by (cases n; cases w) auto
next
  case (Cons c cs)
  from Cons.prems(1) obtain es where n: "n = Dir es" by (cases n) auto
  show ?case
  proof (cases "map_of es c")
    case None
    with Cons.prems(1) n have n': "n' = Dir (es @ [(c, fresh cs w)])" by auto
    from None show ?thesis
      unfolding n' by (simp add: map_of_append_fresh lookup_fresh_target split: option.splits)
  next
    case (Some m)
    with Cons.prems(1) n obtain m' where m': "mk cs w m = Inr m'"
      and n': "n' = Dir (AList.update c m' es)"
      by (auto split: sum.splits)
    from Cons.IH [OF m'] show ?thesis
      unfolding n' by (cases w) (simp_all add: update_conv')
  qed
qed

lemma lookup_append: "lookup n (p @ q) = (case lookup n p of None \<Rightarrow> None | Some m \<Rightarrow> lookup m q)"
proof (induction p arbitrary: n)
  case Nil
  then show ?case by simp
next
  case (Cons c cs)
  then show ?case by (cases n) (auto split: option.splits)
qed










section \<open>Properties of hoisting\<close>

lemma lookup_set_entries:
  "lookup root p = Some (Dir es) \<Longrightarrow> lookup (set_entries p es' root) p = Some (Dir es')"
proof (induction p arbitrary: root)
  case Nil
  then show ?case by simp
next
  case (Cons c cs)
  then show ?case by (cases root) (auto simp: update_conv' split: option.splits)
qed

lemma set_entries_same:
  "lookup root p = Some (Dir es) \<Longrightarrow> set_entries p es root = root"
proof (induction p arbitrary: root)
  case Nil
  then show ?case by simp
next
  case (Cons c cs)
  then show ?case by (cases root) (auto simp: update_triv split: option.splits)
qed

lemma map_entry_append_present:
  "k \<in> fst ` set xs \<Longrightarrow> AList.map_entry k f (xs @ ys) = AList.map_entry k f xs @ ys"
  by (induction xs) auto

lemma map_entry_twice:
  "AList.map_entry k f (AList.map_entry k g xs) = AList.map_entry k (\<lambda>x. f (g x)) xs"
  by (induction xs) auto

lemma map_entry_keys: "fst ` set (AList.map_entry k f xs) = fst ` set xs"
  by (induction xs) auto

lemma rename_up_keys: "fst ` set (rename_up nm c n es) = insert c (fst ` set es)"
  by (simp add: rename_up_def map_entry_keys)

lemma map_of_None_keys: "(map_of es k = None) = (k \<notin> fst ` set es)"
  by (simp add: map_of_eq_None_iff)

lemma hoist_moves:
  assumes "nm \<in> fst ` set es" and "distinct (map fst cs)" and "fst ` set cs \<inter> fst ` set es = {}"
  shows "hoist ed nm cs es = (Inr (), AList.map_entry nm (fold remove_child (map fst cs)) es @ cs)"
  using assms
proof (induction cs arbitrary: es)
  case Nil
  have "AList.map_entry nm id es = es" by (induction es) auto
  then show ?case by (simp add: id_def)
next
  case (Cons p ps)
  let ?es1 = "rename_up nm (fst p) (snd p) es"
  from Cons.prems(3) have free: "map_of es (fst p) = None" by (auto simp: map_of_None_keys)
  have k1: "nm \<in> fst ` set ?es1" using Cons.prems(1) by (simp add: rename_up_keys)
  have d1: "distinct (map fst ps)" using Cons.prems(2) by simp
  have i1: "fst ` set ps \<inter> fst ` set ?es1 = {}"
    using Cons.prems(2,3) by (auto simp: rename_up_keys)
  have e1: "hoist ed nm (p # ps) es = hoist ed nm ps ?es1" using free by simp
  have e2: "hoist ed nm ps ?es1
      = (Inr (), AList.map_entry nm (fold remove_child (map fst ps)) ?es1 @ ps)"
    by (rule Cons.IH [OF k1 d1 i1])
  have e3: "AList.map_entry nm (fold remove_child (map fst ps)) ?es1
      = AList.map_entry nm (fold remove_child (map fst (p # ps))) es @ [p]"
    using Cons.prems(1)
    by (simp add: rename_up_def map_entry_append_present map_entry_keys map_entry_twice comp_def)
  show ?case unfolding e1 e2 e3 by (simp add: comp_def)
qed

lemma fold_remove_child:
  "fold remove_child ks (Dir cs) = Dir (filter (\<lambda>p. fst p \<notin> set ks) cs)"
proof (induction ks arbitrary: cs)
  case Nil
  then show ?case by simp
next
  case (Cons k ks)
  have "AList.delete k cs = filter (\<lambda>p. fst p \<noteq> k) cs"
    by (induction cs) (auto simp: AList.delete_eq)
  with Cons show ?case by (simp add: conj_commute)
qed

lemma fold_remove_all: "fold remove_child (map fst cs) (Dir cs) = Dir []"
  by (simp add: fold_remove_child)

lemma map_of_map_entry_value:
  "map_of es k = Some v \<Longrightarrow> map_of (AList.map_entry k f es @ ys) k = Some (f v)"
  by (induction es) (auto split: if_splits)

lemma delete_map_entry_append:
  "k \<notin> fst ` set ys \<Longrightarrow> AList.delete k (AList.map_entry k f es @ ys) = AList.delete k es @ ys"
proof -
  have a: "AList.delete k (AList.map_entry k f es) = AList.delete k es"
    by (induction es) (auto simp: AList.delete_eq)
  have b: "k \<notin> fst ` set ys \<Longrightarrow> AList.delete k ys = ys"
    by (induction ys) (auto simp: AList.delete_eq)
  assume "k \<notin> fst ` set ys"
  with a b show ?thesis by (simp add: AList.delete_eq)
qed

lemma hoist_collision:
  assumes "distinct (map fst cs)" and "fst ` set cs \<inter> fst ` set es \<noteq> {}"
  shows "\<exists>c \<in> fst ` set cs \<inter> fst ` set es.
           fst (hoist ed nm cs es)
             = Inl (RuntimeError (''Cannot flatten zip output; target already exists: ''
                                   @ str_of_path (ed @ [c])))"
  using assms
proof (induction cs arbitrary: es)
  case Nil
  then show ?case by simp
next
  case (Cons p ps)
  show ?case
  proof (cases "map_of es (fst p) = None")
    case False
    then have "fst p \<in> fst ` set es" by (simp add: map_of_None_keys)
    with False show ?thesis by auto
  next
    case True
    let ?es1 = "rename_up nm (fst p) (snd p) es"
    from True have np: "fst p \<notin> fst ` set es" by (simp add: map_of_None_keys)
    with Cons.prems(2) have "fst ` set ps \<inter> fst ` set ?es1 \<noteq> {}"
      by (auto simp: rename_up_keys)
    moreover from Cons.prems(1) have "distinct (map fst ps)" by simp
    ultimately obtain c where c: "c \<in> fst ` set ps \<inter> fst ` set ?es1"
      and r: "fst (hoist ed nm ps ?es1)
             = Inl (RuntimeError (''Cannot flatten zip output; target already exists: ''
                                   @ str_of_path (ed @ [c])))"
      using Cons.IH [of ?es1] by blast
    from Cons.prems(1) have "fst p \<notin> fst ` set ps" by simp
    with c have "c \<noteq> fst p" by blast
    with c have "c \<in> fst ` set (p # ps) \<inter> fst ` set es" by (auto simp: rename_up_keys)
    moreover from True r have "fst (hoist ed nm (p # ps) es)
             = Inl (RuntimeError (''Cannot flatten zip output; target already exists: ''
                                   @ str_of_path (ed @ [c])))" by simp
    ultimately show ?thesis by blast
  qed
qed

lemma single_candidate:
  assumes "filter is_candidate es = [(nm, n)]" and "distinct (map fst es)"
  shows "map_of es nm = Some n" and "nm \<in> fst ` set es"
proof -
  from assms(1) have "(nm, n) \<in> set (filter is_candidate es)" by simp
  then have m: "(nm, n) \<in> set es" by simp
  with assms(2) show "map_of es nm = Some n" by simp
  from m show "nm \<in> fst ` set es" by force
qed

lemma flatten_entries_few:
  "length (filter is_candidate es) \<noteq> 1 \<Longrightarrow> flatten_entries ed es = (Inr (), es)"
  by (simp add: flatten_entries_def)

lemma flatten_entries_file:
  "filter is_candidate es = [(nm, File b)] \<Longrightarrow> flatten_entries ed es = (Inr (), es)"
  by (simp add: flatten_entries_def)

lemma flatten_entries_moves:
  assumes c: "filter is_candidate es = [(nm, Dir cs)]" and d: "distinct (map fst es)"
    and dc: "distinct (map fst cs)" and i: "fst ` set cs \<inter> fst ` set es = {}"
  shows "flatten_entries ed es = (Inr (), AList.delete nm es @ cs)"
proof -
  from single_candidate [OF c d] have m: "map_of es nm = Some (Dir cs)" and k: "nm \<in> fst ` set es" .
  from k i have nk: "nm \<notin> fst ` set cs" by auto
  let ?es' = "AList.map_entry nm (fold remove_child (map fst cs)) es @ cs"
  have h: "hoist ed nm cs es = (Inr (), ?es')" by (rule hoist_moves [OF k dc i])
  have "map_of ?es' nm = Some (Dir [])"
    using map_of_map_entry_value [OF m, of "fold remove_child (map fst cs)" cs]
    by (simp add: fold_remove_all)
  then have "rmdir_best_effort nm ?es' = AList.delete nm es @ cs"
    using nk by (simp add: rmdir_best_effort_def delete_map_entry_append)
  with h c show ?thesis by (simp add: flatten_entries_def)
qed

lemma flatten_entries_collision:
  assumes c: "filter is_candidate es = [(nm, Dir cs)]"
    and dc: "distinct (map fst cs)" and i: "fst ` set cs \<inter> fst ` set es \<noteq> {}"
  shows "\<exists>c \<in> fst ` set cs \<inter> fst ` set es.
           fst (flatten_entries ed es)
             = Inl (RuntimeError (''Cannot flatten zip output; target already exists: ''
                                   @ str_of_path (ed @ [c])))"
proof -
  from hoist_collision [OF dc i, of ed nm] obtain k where k: "k \<in> fst ` set cs \<inter> fst ` set es"
    and r: "fst (hoist ed nm cs es)
             = Inl (RuntimeError (''Cannot flatten zip output; target already exists: ''
                                   @ str_of_path (ed @ [k])))" by blast
  from r c have "fst (flatten_entries ed es)
             = Inl (RuntimeError (''Cannot flatten zip output; target already exists: ''
                                   @ str_of_path (ed @ [k])))"
    by (cases "hoist ed nm cs es") (auto simp: flatten_entries_def)
  with k show ?thesis by blast
qed


text \<open>
  C8. Let the extraction directory exist, with distinctly named entries. When its entries,
  apart from the ignored names and the zip files, are not exactly one, or are one file,
  \<open>_flatten_single_top_level_dir\<close> changes nothing. When they are exactly one directory,
  whose entries are distinctly named: if no entry of that directory has the name of a
  top-level entry, afterwards the extraction directory holds its former entries without
  that directory, and all entries of that directory; if some entry has the name of a
  top-level entry, the call raises the error that names the target of such an entry.
\<close>

theorem flatten_single_top_level_dir_spec:
  assumes "lookup root ed = Some (Dir es)" and "distinct (map fst es)"
  shows "(length (filter is_candidate es) \<noteq> 1 \<longrightarrow>
            flatten_single_top_level_dir ed root = (Inr (), root))
     \<and> (\<forall>nm b. filter is_candidate es = [(nm, File b)] \<longrightarrow>
            flatten_single_top_level_dir ed root = (Inr (), root))
     \<and> (\<forall>nm cs. filter is_candidate es = [(nm, Dir cs)] \<and> distinct (map fst cs)
            \<and> fst ` set cs \<inter> fst ` set es = {} \<longrightarrow>
            fst (flatten_single_top_level_dir ed root) = Inr ()
            \<and> lookup (snd (flatten_single_top_level_dir ed root)) ed
                = Some (Dir (AList.delete nm es @ cs)))
     \<and> (\<forall>nm cs. filter is_candidate es = [(nm, Dir cs)] \<and> distinct (map fst cs)
            \<and> fst ` set cs \<inter> fst ` set es \<noteq> {} \<longrightarrow>
            (\<exists>c \<in> fst ` set cs \<inter> fst ` set es.
               fst (flatten_single_top_level_dir ed root)
                 = Inl (RuntimeError (''Cannot flatten zip output; target already exists: ''
                                       @ str_of_path (ed @ [c])))))"
proof -
  have g: "flatten_single_top_level_dir ed root
             = (fst (flatten_entries ed es), set_entries ed (snd (flatten_entries ed es)) root)"
    using assms(1) by (simp add: flatten_single_top_level_dir_def split: prod.splits)
  have a: "flatten_single_top_level_dir ed root = (Inr (), root)"
    if "length (filter is_candidate es) \<noteq> 1"
    unfolding g using flatten_entries_few [OF that, of ed] set_entries_same [OF assms(1)] by simp
  have b: "flatten_single_top_level_dir ed root = (Inr (), root)"
    if "filter is_candidate es = [(nm, File b)]" for nm b
    unfolding g using flatten_entries_file [OF that, of ed] set_entries_same [OF assms(1)] by simp
  have c: "fst (flatten_single_top_level_dir ed root) = Inr ()
            \<and> lookup (snd (flatten_single_top_level_dir ed root)) ed
                = Some (Dir (AList.delete nm es @ cs))"
    if "filter is_candidate es = [(nm, Dir cs)]" "distinct (map fst cs)"
      "fst ` set cs \<inter> fst ` set es = {}" for nm cs
    unfolding g
    using flatten_entries_moves [OF that(1) assms(2) that(2,3), of ed]
      lookup_set_entries [OF assms(1)] by simp
  have d: "\<exists>c \<in> fst ` set cs \<inter> fst ` set es.
               fst (flatten_single_top_level_dir ed root)
                 = Inl (RuntimeError (''Cannot flatten zip output; target already exists: ''
                                       @ str_of_path (ed @ [c])))"
    if "filter is_candidate es = [(nm, Dir cs)]" "distinct (map fst cs)"
      "fst ` set cs \<inter> fst ` set es \<noteq> {}" for nm cs
    unfolding g using flatten_entries_collision [OF that, of ed] by simp
  from a b c d show ?thesis by blast
qed


theorem flatten_single_top_level_dir_spec_witness:
  "flatten_single_top_level_dir [''u'', ''x'']
      (Dir [(''u'', Dir [(''x'', Dir [(''d-mineru-1.zip'', File ''PK''), (''deck'', Dir []),
                                      (''b'', File ''x'')])])])
     = (Inr (), Dir [(''u'', Dir [(''x'', Dir [(''d-mineru-1.zip'', File ''PK''), (''deck'', Dir []),
                                      (''b'', File ''x'')])])])
   \<and> flatten_single_top_level_dir [''u'', ''x'']
      (Dir [(''u'', Dir [(''x'', Dir [(''d-mineru-1.zip'', File ''PK''), (''b'', File ''x'')])])])
     = (Inr (), Dir [(''u'', Dir [(''x'', Dir [(''d-mineru-1.zip'', File ''PK''), (''b'', File ''x'')])])])
   \<and> lookup (snd (flatten_single_top_level_dir [''u'', ''x'']
      (Dir [(''u'', Dir [(''x'', Dir [(''d-mineru-1.ZIP'', File ''PK''), (''__MACOSX'', Dir []),
          (''deck'', Dir [(''d_content_list.json'', File ''[]''),
                          (''images'', Dir [(''a.png'', File ''p'')])])])])]))) [''u'', ''x'']
     = Some (Dir [(''d-mineru-1.ZIP'', File ''PK''), (''__MACOSX'', Dir []),
                  (''d_content_list.json'', File ''[]''), (''images'', Dir [(''a.png'', File ''p'')])])
   \<and> fst (flatten_single_top_level_dir [''u'', ''x'']
      (Dir [(''u'', Dir [(''x'', Dir [(''d-mineru-1.zip'', File ''PK''),
          (''deck'', Dir [(''deck'', File ''[]'')])])])]))
     = Inl (RuntimeError ''Cannot flatten zip output; target already exists: /u/x/deck'')"
proof -
  note ev = is_candidate_def ignored_names_def is_file_def path_suffix_def rfind_def lower_def
    to_lower_def
  let ?e1 = "[(''d-mineru-1.zip'', File ''PK''), (''deck'', Dir []), (''b'', File ''x'')]"
  let ?e2 = "[(''d-mineru-1.zip'', File ''PK''), (''b'', File ''x'')]"
  let ?c3 = "[(''d_content_list.json'', File ''[]''), (''images'', Dir [(''a.png'', File ''p'')])]"
  let ?e3 = "[(''d-mineru-1.ZIP'', File ''PK''), (''__MACOSX'', Dir []), (''deck'', Dir ?c3)]"
  let ?c4 = "[(''deck'', File ''[]'')]"
  let ?e4 = "[(''d-mineru-1.zip'', File ''PK''), (''deck'', Dir ?c4)]"
  have f1: "filter is_candidate ?e1 = [(''deck'', Dir []), (''b'', File ''x'')]" by (simp add: ev)
  have f2: "filter is_candidate ?e2 = [(''b'', File ''x'')]" by (simp add: ev)
  have f3: "filter is_candidate ?e3 = [(''deck'', Dir ?c3)]" by code_simp
  have f4: "filter is_candidate ?e4 = [(''deck'', Dir ?c4)]" by (simp add: ev)
  have w1: "flatten_single_top_level_dir [''u'', ''x''] (Dir [(''u'', Dir [(''x'', Dir ?e1)])])
      = (Inr (), Dir [(''u'', Dir [(''x'', Dir ?e1)])])"
    using flatten_single_top_level_dir_spec [of "Dir [(''u'', Dir [(''x'', Dir ?e1)])]"
        "[''u'', ''x'']" ?e1] f1 by simp
  have w2: "flatten_single_top_level_dir [''u'', ''x''] (Dir [(''u'', Dir [(''x'', Dir ?e2)])])
      = (Inr (), Dir [(''u'', Dir [(''x'', Dir ?e2)])])"
    using flatten_single_top_level_dir_spec [of "Dir [(''u'', Dir [(''x'', Dir ?e2)])]"
        "[''u'', ''x'']" ?e2] f2 by simp
  have w3: "lookup (snd (flatten_single_top_level_dir [''u'', ''x'']
        (Dir [(''u'', Dir [(''x'', Dir ?e3)])]))) [''u'', ''x'']
      = Some (Dir (AList.delete ''deck'' ?e3 @ ?c3))"
    using flatten_single_top_level_dir_spec [of "Dir [(''u'', Dir [(''x'', Dir ?e3)])]"
        "[''u'', ''x'']" ?e3] f3 by simp
  have w4: "fst (flatten_single_top_level_dir [''u'', ''x''] (Dir [(''u'', Dir [(''x'', Dir ?e4)])]))
      = Inl (RuntimeError (''Cannot flatten zip output; target already exists: ''
                             @ str_of_path ([''u'', ''x''] @ [''deck''])))"
    using flatten_single_top_level_dir_spec [of "Dir [(''u'', Dir [(''x'', Dir ?e4)])]"
        "[''u'', ''x'']" ?e4] f4 by simp
  from w1 w2 w3 w4 show ?thesis
    by (simp add: AList.delete_eq str_of_path_def path_str_def abs_path_def)
qed

section \<open>Properties of the layout backfill\<close>

lemma child_simple:
  "CHR ''/'' \<notin> set s \<Longrightarrow> s \<noteq> [] \<Longrightarrow> s \<noteq> ''.'' \<Longrightarrow> child p s = p @ [s]"
  by (cases s) (auto simp: child_def path_join_def parse_path_def path_parts_def abs_path_def
      Let_def split_on_single)

lemma lookup_child:
  "lookup root d = Some (Dir es) \<Longrightarrow> lookup root (d @ [nm]) = map_of es nm"
  by (simp add: lookup_append split: option.splits)

lemma fs_exists_child:
  "lookup root d = Some (Dir es) \<Longrightarrow> fs_exists root (d @ [nm]) = (map_of es nm \<noteq> None)"
  by (simp add: fs_exists_def lookup_child)

lemma mk_child_file:
  "lookup root d = Some (Dir es) \<Longrightarrow> map_of es nm = None \<Longrightarrow>
     mk (d @ [nm]) (Some b) root = Inr (set_entries d (es @ [(nm, File b)]) root)"
proof (induction d arbitrary: root)
  case Nil
  then show ?case by simp
next
  case (Cons c cs)
  then show ?case by (cases root) (auto split: option.splits)
qed

lemma write_bytes_child:
  "lookup root d = Some (Dir es) \<Longrightarrow> map_of es nm = None \<Longrightarrow>
     write_bytes (d @ [nm]) b root = Inr (set_entries d (es @ [(nm, File b)]) root)"
  by (simp add: write_bytes_def mk_child_file)

lemma read_bytes_child:
  "lookup root d = Some (Dir es) \<Longrightarrow> map_of es nm = Some (File b) \<Longrightarrow>
     read_bytes (d @ [nm]) root = Inr b"
  by (simp add: read_bytes_def lookup_child)

lemma glob_suffix_entries:
  "lookup root d = Some (Dir es) \<Longrightarrow>
     glob_suffix suf root d = map (\<lambda>nm. d @ [nm]) (filter (\<lambda>nm. endswith nm suf) (map fst es))"
  by (simp add: glob_suffix_def listdir_def)

lemma path_name_children: "map path_name (map (\<lambda>nm. d @ [nm]) nms) = nms"
  by (induction nms) (auto simp: path_name_def)

lemma sublist_join_sep: "x \<in> set xs \<Longrightarrow> sublist x (join_sep sep xs)"
proof (induction sep xs rule: join_sep.induct)
  case (1 sep)
  then show ?case by simp
next
  case (2 sep y)
  then show ?case by simp
next
  case (3 sep y z zs)
  show ?case
  proof (cases "x = y")
    case True
    then show ?thesis by (simp add: sublist_append_rightI)
  next
    case False
    with 3 have "sublist x (join_sep sep (z # zs))" by simp
    then obtain ps ss where "join_sep sep (z # zs) = ps @ x @ ss" unfolding sublist_def by blast
    then have "y @ sep @ join_sep sep (z # zs) = (y @ sep @ ps) @ x @ ss" by simp
    then have "sublist x (y @ sep @ join_sep sep (z # zs))" unfolding sublist_def by blast
    then show ?thesis by simp
  qed
qed

lemma middle_json_name: "pdf_stem @ ''_middle.json'' \<noteq> [] \<and> pdf_stem @ ''_middle.json'' \<noteq> ''.''"
  by (cases pdf_stem) auto

lemma ensure_layout_copy:
  assumes d: "lookup root ed = Some (Dir es)" and nl: "map_of es ''layout.json'' = None"
    and chosen: "map_of es nm = Some (File b)"
  shows "(case read_bytes (ed @ [nm]) root of
            Inl e \<Rightarrow> (Inl e, root)
          | Inr b \<Rightarrow>
              (case write_bytes (ed @ [''layout.json'']) b root of
                 Inl e \<Rightarrow> (Inl e, root)
               | Inr root' \<Rightarrow> (Inr (), root')))
         = (Inr (), set_entries ed (es @ [(''layout.json'', File b)]) root)"
  by (simp add: read_bytes_child [OF d chosen] write_bytes_child [OF d nl])


text \<open>
  C2. Let the result directory exist and have no \<open>layout.json\<close>, and let the stem of the PDF
  name contain no slash. If the entry \<open>\<^verbatim>\<open><pdf_stem>_middle.json\<close>\<close> exists and is a file, or it does
  not exist and exactly one entry ends in \<open>_middle.json\<close> and is a file, the call succeeds
  and \<open>layout.json\<close> is added to the directory with the bytes of that file. If the preferred
  entry does not exist and several entries end in \<open>_middle.json\<close>, the call raises an error
  whose message contains the name of every one of them, and the file system is unchanged.
\<close>

theorem ensure_layout_json_spec:
  assumes "lookup root ed = Some (Dir es)" and "map_of es ''layout.json'' = None"
    and "CHR ''/'' \<notin> set pdf_stem"
  shows "(\<forall>b. map_of es (pdf_stem @ ''_middle.json'') = Some (File b) \<longrightarrow>
            ensure_layout_json_from_middle_json ed pdf_stem root
              = (Inr (), set_entries ed (es @ [(''layout.json'', File b)]) root)
            \<and> lookup (snd (ensure_layout_json_from_middle_json ed pdf_stem root))
                  (ed @ [''layout.json'']) = Some (File b))
     \<and> (\<forall>nm b. map_of es (pdf_stem @ ''_middle.json'') = None
            \<and> filter (\<lambda>n. endswith n ''_middle.json'') (map fst es) = [nm]
            \<and> map_of es nm = Some (File b) \<longrightarrow>
            ensure_layout_json_from_middle_json ed pdf_stem root
              = (Inr (), set_entries ed (es @ [(''layout.json'', File b)]) root)
            \<and> lookup (snd (ensure_layout_json_from_middle_json ed pdf_stem root))
                  (ed @ [''layout.json'']) = Some (File b))
     \<and> (map_of es (pdf_stem @ ''_middle.json'') = None
            \<and> 1 < length (filter (\<lambda>n. endswith n ''_middle.json'') (map fst es)) \<longrightarrow>
            (\<exists>msg. ensure_layout_json_from_middle_json ed pdf_stem root
                     = (Inl (RuntimeError msg), root)
                \<and> (\<forall>nm \<in> set (filter (\<lambda>n. endswith n ''_middle.json'') (map fst es)).
                      sublist nm msg)))"
proof -
  let ?pref = "pdf_stem @ ''_middle.json''"
  let ?names = "filter (\<lambda>n. endswith n ''_middle.json'') (map fst es)"
  let ?E = "ensure_layout_json_from_middle_json ed pdf_stem root"
  note d = assms(1) and nl = assms(2)
  have lp: "child ed ''layout.json'' = ed @ [''layout.json'']"
    by (rule child_simple) simp_all
  have pp: "child ed ?pref = ed @ [?pref]"
    using assms(3) middle_json_name [of pdf_stem] by (intro child_simple) simp_all
  have ex_l: "\<not> fs_exists root (ed @ [''layout.json''])"
    using nl by (simp add: fs_exists_child [OF d])
  have gl: "glob_suffix ''_middle.json'' root ed = map (\<lambda>nm. ed @ [nm]) ?names"
    by (rule glob_suffix_entries [OF d])
  have after: "lookup (set_entries ed (es @ [(''layout.json'', File b)]) root) (ed @ [''layout.json''])
                 = Some (File b)" for b
    using lookup_child [OF lookup_set_entries [OF d, of "es @ [(''layout.json'', File b)]"],
        of "''layout.json''"] nl
    by (simp add: map_add_def)
  have a: "?E = (Inr (), set_entries ed (es @ [(''layout.json'', File b)]) root)"
    if "map_of es ?pref = Some (File b)" for b
  proof -
    from that have "fs_exists root (ed @ [?pref])" by (simp add: fs_exists_child [OF d])
    then show ?thesis
      unfolding ensure_layout_json_from_middle_json_def lp pp Let_def
      using ex_l ensure_layout_copy [OF d nl that] by simp
  qed
  have b: "?E = (Inr (), set_entries ed (es @ [(''layout.json'', File b)]) root)"
    if "map_of es ?pref = None" "?names = [nm]" "map_of es nm = Some (File b)" for nm b
  proof -
    from that(1) have "\<not> fs_exists root (ed @ [?pref])" by (simp add: fs_exists_child [OF d])
    then show ?thesis
      unfolding ensure_layout_json_from_middle_json_def lp pp gl Let_def
      using ex_l ensure_layout_copy [OF d nl that(3)] that(2) by simp
  qed
  have c: "\<exists>msg. ?E = (Inl (RuntimeError msg), root) \<and> (\<forall>nm \<in> set ?names. sublist nm msg)"
    if "map_of es ?pref = None" "1 < length ?names"
  proof -
    let ?head = "''Multiple *_middle.json files found but layout.json is missing. ''
                     @ ''Cannot choose which to copy in '' @ str_of_path ed
                     @ ''.'' @ newline @ ''Candidates:'' @ newline"
    let ?msg = "?head @ join_sep newline (sort ?names)"
    from that(1) have np: "\<not> fs_exists root (ed @ [?pref])" by (simp add: fs_exists_child [OF d])
    have several: "1 < length xs \<Longrightarrow> xs \<noteq> [] \<and> length xs \<noteq> 1" for xs :: "string list"
      by (cases xs) auto
    from several [OF that(2)] have ne: "?names \<noteq> []" and n1: "length ?names \<noteq> 1"
      by blast+
    have "?E = (Inl (RuntimeError ?msg), root)"
      unfolding ensure_layout_json_from_middle_json_def lp pp gl Let_def
      using ex_l np ne n1 by (simp add: path_name_children del: map_map)
    moreover have "sublist nm ?msg" if "nm \<in> set ?names" for nm
    proof -
      from that have "nm \<in> set (sort ?names)" by simp
      then have "sublist nm (join_sep newline (sort ?names))" by (rule sublist_join_sep)
      then obtain ps ss where "join_sep newline (sort ?names) = ps @ nm @ ss"
        unfolding sublist_def by blast
      then have "?msg = (?head @ ps) @ nm @ ss" by simp
      then show ?thesis unfolding sublist_def by blast
    qed
    ultimately show ?thesis by blast
  qed
  from a b c after show ?thesis by (simp del: append_assoc)
qed


theorem ensure_layout_json_spec_witness:
  "lookup (snd (ensure_layout_json_from_middle_json [''r''] ''deck''
       (Dir [(''r'', Dir [(''other_middle.json'', File ''x''), (''deck_middle.json'', File ''{}'')])])))
     [''r'', ''layout.json''] = Some (File ''{}'')
   \<and> lookup (snd (ensure_layout_json_from_middle_json [''r''] ''deck''
       (Dir [(''r'', Dir [(''a_middle.json'', File ''1''), (''full.md'', File ''#'')])])))
     [''r'', ''layout.json''] = Some (File ''1'')
   \<and> snd (ensure_layout_json_from_middle_json [''r''] ''deck''
       (Dir [(''r'', Dir [(''b_middle.json'', File ''2''), (''a_middle.json'', File ''1'')])]))
     = Dir [(''r'', Dir [(''b_middle.json'', File ''2''), (''a_middle.json'', File ''1'')])]
   \<and> (\<exists>msg. fst (ensure_layout_json_from_middle_json [''r''] ''deck''
       (Dir [(''r'', Dir [(''b_middle.json'', File ''2''), (''a_middle.json'', File ''1'')])]))
         = Inl (RuntimeError msg)
       \<and> sublist ''a_middle.json'' msg \<and> sublist ''b_middle.json'' msg)"
proof -
  note ev = endswith_def suffix_to_prefix
  let ?e1 = "[(''other_middle.json'', File ''x''), (''deck_middle.json'', File ''{}'')]"
  let ?e2 = "[(''a_middle.json'', File ''1''), (''full.md'', File ''#'')]"
  let ?e3 = "[(''b_middle.json'', File ''2''), (''a_middle.json'', File ''1'')]"
  have s: "CHR ''/'' \<notin> set ''deck''" by simp
  have w1: "lookup (snd (ensure_layout_json_from_middle_json [''r''] ''deck'' (Dir [(''r'', Dir ?e1)])))
     ([''r''] @ [''layout.json'']) = Some (File ''{}'')"
    using ensure_layout_json_spec [of "Dir [(''r'', Dir ?e1)]" "[''r'']" ?e1 "''deck''", OF _ _ s]
    by simp
  have w2: "lookup (snd (ensure_layout_json_from_middle_json [''r''] ''deck'' (Dir [(''r'', Dir ?e2)])))
     ([''r''] @ [''layout.json'']) = Some (File ''1'')"
    using ensure_layout_json_spec [of "Dir [(''r'', Dir ?e2)]" "[''r'']" ?e2 "''deck''", OF _ _ s]
    by (simp add: ev)
  have "\<exists>msg. ensure_layout_json_from_middle_json [''r''] ''deck'' (Dir [(''r'', Dir ?e3)])
                     = (Inl (RuntimeError msg), Dir [(''r'', Dir ?e3)])
                \<and> (\<forall>nm \<in> set (filter (\<lambda>n. endswith n ''_middle.json'') (map fst ?e3)).
                      sublist nm msg)"
    using ensure_layout_json_spec [of "Dir [(''r'', Dir ?e3)]" "[''r'']" ?e3 "''deck''", OF _ _ s]
    by (simp add: ev)
  then obtain msg where
    m: "ensure_layout_json_from_middle_json [''r''] ''deck'' (Dir [(''r'', Dir ?e3)])
                     = (Inl (RuntimeError msg), Dir [(''r'', Dir ?e3)])"
    and sl: "\<forall>nm \<in> set (filter (\<lambda>n. endswith n ''_middle.json'') (map fst ?e3)). sublist nm msg"
    by blast
  from sl have "sublist ''a_middle.json'' msg \<and> sublist ''b_middle.json'' msg"
    by (simp add: ev)
  with m w1 w2 show ?thesis by simp
qed

section \<open>Properties of the whole call\<close>

lemma mk_dir_keeps_files:
  "mk t None n = Inr n' \<Longrightarrow> lookup n p = Some (File b) \<Longrightarrow> lookup n' p = Some (File b)"
proof (induction t arbitrary: n n' p)
  case Nil
  then show ?case by (cases n) auto
next
  case (Cons c cs)
  from Cons.prems(1) obtain es where n: "n = Dir es" by (cases n) auto
  from Cons.prems(2) n obtain q qs where p: "p = q # qs" by (cases p) auto
  show ?case
  proof (cases "map_of es c")
    case None
    with Cons.prems(1) n have n': "n' = Dir (es @ [(c, fresh cs None)])" by auto
    from None Cons.prems(2) have "q \<noteq> c" unfolding n p by auto
    with None Cons.prems(2) show ?thesis
      unfolding n n' p by (simp add: map_of_append_fresh)
  next
    case (Some m)
    with Cons.prems(1) n obtain m' where m': "mk cs None m = Inr m'"
      and n': "n' = Dir (AList.update c m' es)"
      by (auto split: sum.splits)
    show ?thesis
    proof (cases "q = c")
      case True
      with Cons.prems(2) Some have "lookup m qs = Some (File b)" unfolding n p by simp
      from Cons.IH [OF m' this] True show ?thesis unfolding n' p by (simp add: update_conv')
    next
      case False
      with Cons.prems(2) show ?thesis unfolding n n' p by (simp add: update_conv')
    qed
  qed
qed

lemma write_bytes_lookup:
  "write_bytes p d root = Inr root' \<Longrightarrow> lookup root' p = Some (File d)"
  using mk_lookup_target [of p "Some d" root root']
  by (auto simp: write_bytes_def split: option.splits node.splits)

lemma body_snippet_length: "length (body_snippet t) \<le> 10000 + length truncated_marker"
  by (simp add: body_snippet_def)

lemma post_file_parse_answer:
  assumes "read_bytes pdf root = Inr f" and "\<And>req. post req = Inr resp"
  shows "post_file_parse post endpoint pdf form_fields timeout_s root =
     (if \<not> resp_ok resp
      then Inl (RuntimeError (''Self-hosted MinerU error HTTP '' @ show_nat (status_code resp)
                                @ '': '' @ body_snippet (resp_text resp)))
      else Inr (resp_content resp))"
  using assms by (simp add: post_file_parse_def body_snippet_def Let_def)

lemma parse_pdf_until_answer:
  assumes pdf: "lookup root (resolve pdf_path0) = Some (File f)"
    and mkdir: "mk (extract_dir_of env upload_folder0) None root = Inr root1"
    and ans: "\<And>req. requests_post env req = Inr resp"
  shows "read_bytes (resolve pdf_path0) root1 = Inr f"
    and "fs_exists root (resolve pdf_path0)"
proof -
  from mk_dir_keeps_files [OF mkdir pdf] show "read_bytes (resolve pdf_path0) root1 = Inr f"
    by (simp add: read_bytes_def)
  from pdf show "fs_exists root (resolve pdf_path0)" by (simp add: fs_exists_def)
qed

text \<open>
  C3. Let the PDF exist as a file, let the result directory be created, and let the service
  answer. If the status is not a success, the call raises the error whose message carries
  the status code and the response body, cut to its first 10,000 characters followed by
  the truncation marker when it is longer. If the status is a success, the payload is written
  to the zip path, and the payload is not a zip archive, the call raises the error that
  names the zip path, and at that moment the zip path is a file holding the payload.
\<close>

theorem parse_pdf_response_validation:
  assumes pdf: "lookup root (resolve pdf_path0) = Some (File f)"
    and mkdir: "mk (extract_dir_of env upload_folder0) None root = Inr root1"
    and ans: "\<And>req. requests_post env req = Inr resp"
  shows "(\<not> resp_ok resp \<longrightarrow>
            fst (parse_pdf_via_self_hosted_mineru env pdf_path0 base upload_folder0 odf tmo ov root)
              = Inl (RuntimeError (''Self-hosted MinerU error HTTP '' @ show_nat (status_code resp)
                                     @ '': '' @ body_snippet (resp_text resp)))
            \<and> length (body_snippet (resp_text resp)) \<le> 10000 + length truncated_marker
            \<and> (length (resp_text resp) \<le> 10000 \<longrightarrow> body_snippet (resp_text resp) = resp_text resp)
            \<and> (length (resp_text resp) > 10000 \<longrightarrow>
                  body_snippet (resp_text resp) = take 10000 (resp_text resp) @ truncated_marker))
     \<and> (resp_ok resp \<and> \<not> is_zipfile env (resp_content resp)
          \<and> write_bytes (zip_path_of env pdf_path0 upload_folder0) (resp_content resp) root1 = Inr root2 \<longrightarrow>
            parse_pdf_via_self_hosted_mineru env pdf_path0 base upload_folder0 odf tmo ov root
              = (Inl (RuntimeError (''Self-hosted MinerU returned non-zip payload. ''
                                   @ ''Saved to '' @ str_of_path (zip_path_of env pdf_path0 upload_folder0)
                                   @ ''. Snippet:'' @ newline
                                   @ decode_utf8_replace env (take 5000 (resp_content resp)))), root2)
            \<and> lookup root2 (zip_path_of env pdf_path0 upload_folder0)
                = Some (File (resp_content resp)))"
proof -
  note u = parse_pdf_until_answer [OF pdf mkdir ans]
  note pa = post_file_parse_answer [OF u(1) ans]
  have a: "fst (parse_pdf_via_self_hosted_mineru env pdf_path0 base upload_folder0 odf tmo ov root)
              = Inl (RuntimeError (''Self-hosted MinerU error HTTP '' @ show_nat (status_code resp)
                                     @ '': '' @ body_snippet (resp_text resp)))"
    if "\<not> resp_ok resp"
    using that u(2) mkdir [unfolded extract_dir_of_def]
    by (simp add: parse_pdf_via_self_hosted_mineru_def Let_def pa)
  have b: "parse_pdf_via_self_hosted_mineru env pdf_path0 base upload_folder0 odf tmo ov root
              = (Inl (RuntimeError (''Self-hosted MinerU returned non-zip payload. ''
                                   @ ''Saved to '' @ str_of_path (zip_path_of env pdf_path0 upload_folder0)
                                   @ ''. Snippet:'' @ newline
                                   @ decode_utf8_replace env (take 5000 (resp_content resp)))), root2)"
    if "resp_ok resp" "\<not> is_zipfile env (resp_content resp)"
      "write_bytes (zip_path_of env pdf_path0 upload_folder0) (resp_content resp) root1 = Inr root2"
    using that(1,2) u(2) mkdir [unfolded extract_dir_of_def]
      that(3) [unfolded zip_path_of_def extract_dir_of_def]
    by (simp add: parse_pdf_via_self_hosted_mineru_def Let_def pa zip_path_of_def extract_dir_of_def)
  have c: "length (body_snippet (resp_text resp)) \<le> 10000 + length truncated_marker"
    by (rule body_snippet_length)
  have d: "length (resp_text resp) \<le> 10000 \<longrightarrow> body_snippet (resp_text resp) = resp_text resp"
    "length (resp_text resp) > 10000 \<longrightarrow>
                  body_snippet (resp_text resp) = take 10000 (resp_text resp) @ truncated_marker"
    by (simp_all add: body_snippet_def)
  from a b c d write_bytes_lookup show ?thesis by blast
qed


theorem parse_pdf_response_validation_witness:
  "fst (parse_pdf_via_self_hosted_mineru
      \<lparr>requests_post = (\<lambda>r. Inr \<lparr>status_code = 503, resp_text = replicate 10001 CHR ''x'',
                                    resp_content = ''busy''\<rparr>),
       is_zipfile = (\<lambda>b. take 2 b = ''PK''), zip_infolist = (\<lambda>b. Inr []),
       decode_utf8_replace = (\<lambda>b. b), uuid_hex8 = ''0123abcd4567'', timestamp = ''20260101-000000''\<rparr>
      [''in'', ''deck.pdf''] ''http://h'' [''up''] ''./output'' 300 None
      (Dir [(''in'', Dir [(''deck.pdf'', File ''%PDF'')]), (''up'', Dir [])]))
    = Inl (RuntimeError (''Self-hosted MinerU error HTTP 503: '' @ replicate 10000 CHR ''x''
                           @ truncated_marker))
   \<and> fst (parse_pdf_via_self_hosted_mineru
      \<lparr>requests_post = (\<lambda>r. Inr \<lparr>status_code = 404, resp_text = ''nothing here'',
                                    resp_content = ''nothing here''\<rparr>),
       is_zipfile = (\<lambda>b. take 2 b = ''PK''), zip_infolist = (\<lambda>b. Inr []),
       decode_utf8_replace = (\<lambda>b. b), uuid_hex8 = ''0123abcd4567'', timestamp = ''20260101-000000''\<rparr>
      [''in'', ''deck.pdf''] ''http://h'' [''up''] ''./output'' 300 None
      (Dir [(''in'', Dir [(''deck.pdf'', File ''%PDF'')]), (''up'', Dir [])]))
    = Inl (RuntimeError ''Self-hosted MinerU error HTTP 404: nothing here'')
   \<and> parse_pdf_via_self_hosted_mineru
      \<lparr>requests_post = (\<lambda>r. Inr \<lparr>status_code = 200, resp_text = ''<html>'',
                                    resp_content = ''<html>''\<rparr>),
       is_zipfile = (\<lambda>b. take 2 b = ''PK''), zip_infolist = (\<lambda>b. Inr []),
       decode_utf8_replace = (\<lambda>b. b), uuid_hex8 = ''0123abcd4567'', timestamp = ''20260101-000000''\<rparr>
      [''in'', ''deck.pdf''] ''http://h'' [''up''] ''./output'' 300 None
      (Dir [(''in'', Dir [(''deck.pdf'', File ''%PDF'')]), (''up'', Dir [])])
    = (Inl (RuntimeError (''Self-hosted MinerU returned non-zip payload. Saved to ''
          @ ''/up/mineru_files/0123abcd/deck-mineru-20260101-000000.zip. Snippet:'' @ newline
          @ ''<html>'')),
       Dir [(''in'', Dir [(''deck.pdf'', File ''%PDF'')]),
            (''up'', Dir [(''mineru_files'', Dir [(''0123abcd'',
               Dir [(''deck-mineru-20260101-000000.zip'', File ''<html>'')])])])])"
proof -
  let ?root = "Dir [(''in'', Dir [(''deck.pdf'', File ''%PDF'')]), (''up'', Dir [])]"
  let ?root1 = "Dir [(''in'', Dir [(''deck.pdf'', File ''%PDF'')]),
            (''up'', Dir [(''mineru_files'', Dir [(''0123abcd'', Dir [])])])]"
  let ?root2 = "Dir [(''in'', Dir [(''deck.pdf'', File ''%PDF'')]),
            (''up'', Dir [(''mineru_files'', Dir [(''0123abcd'',
               Dir [(''deck-mineru-20260101-000000.zip'', File ''<html>'')])])])]"
  let ?env = "\<lambda>r. \<lparr>requests_post = (\<lambda>q. Inr r),
       is_zipfile = (\<lambda>b. take 2 b = ''PK''), zip_infolist = (\<lambda>b. Inr []),
       decode_utf8_replace = (\<lambda>b. b), uuid_hex8 = ''0123abcd4567'', timestamp = ''20260101-000000''\<rparr>"
  note pe = child_def path_join_def parse_path_def path_parts_def abs_path_def resolve_def
    resolve_step_def
  have ed: "extract_dir_of (?env r) [''up''] = [''up'', ''mineru_files'', ''0123abcd'']" for r
    by (simp add: extract_dir_of_def pe)
  have zp: "zip_path_of (?env r) [''in'', ''deck.pdf''] [''up'']
      = [''up'', ''mineru_files'', ''0123abcd'', ''deck-mineru-20260101-000000.zip'']" for r
    by (simp add: zip_path_of_def ed pe path_name_def path_stem_def rfind_def)
  have pdf: "lookup ?root (resolve [''in'', ''deck.pdf'']) = Some (File ''%PDF'')"
    by (simp add: pe)
  have mkdir: "mk (extract_dir_of (?env r) [''up'']) None ?root = Inr ?root1" for r
    by (simp add: ed)
  have wr: "write_bytes (zip_path_of (?env r) [''in'', ''deck.pdf''] [''up'']) ''<html>'' ?root1
      = Inr ?root2" for r
    by (simp add: zp write_bytes_def)
  have n503: "show_nat 503 = ''503''" by code_simp
  have n404: "show_nat 404 = ''404''" by code_simp
  note t = parse_pdf_response_validation [OF pdf mkdir]
  let ?r1 = "\<lparr>status_code = 503, resp_text = replicate 10001 CHR ''x'', resp_content = ''busy''\<rparr>"
  let ?r2 = "\<lparr>status_code = 404, resp_text = ''nothing here'', resp_content = ''nothing here''\<rparr>"
  let ?r3 = "\<lparr>status_code = 200, resp_text = ''<html>'', resp_content = ''<html>''\<rparr>"
  have w1: "fst (parse_pdf_via_self_hosted_mineru (?env ?r1)
      [''in'', ''deck.pdf''] ''http://h'' [''up''] ''./output'' 300 None ?root)
    = Inl (RuntimeError (''Self-hosted MinerU error HTTP 503: '' @ replicate 10000 CHR ''x''
                           @ truncated_marker))"
    using t [of ?r1 ?r1 "''http://h''" "''./output''" 300 None ?root2]
    by (simp add: resp_ok_def n503 body_snippet_def)
  have w2: "fst (parse_pdf_via_self_hosted_mineru (?env ?r2)
      [''in'', ''deck.pdf''] ''http://h'' [''up''] ''./output'' 300 None ?root)
    = Inl (RuntimeError ''Self-hosted MinerU error HTTP 404: nothing here'')"
    using t [of ?r2 ?r2 "''http://h''" "''./output''" 300 None ?root2]
    by (simp add: resp_ok_def n404 body_snippet_def)
  have w3: "parse_pdf_via_self_hosted_mineru (?env ?r3)
      [''in'', ''deck.pdf''] ''http://h'' [''up''] ''./output'' 300 None ?root
    = (Inl (RuntimeError (''Self-hosted MinerU returned non-zip payload. Saved to ''
          @ ''/up/mineru_files/0123abcd/deck-mineru-20260101-000000.zip. Snippet:'' @ newline
          @ ''<html>'')), ?root2)"
    using t [of ?r3 ?r3 "''http://h''" "''./output''" 300 None ?root2] wr [of ?r3]
    by (simp add: resp_ok_def zp str_of_path_def path_str_def abs_path_def)
  from w1 w2 w3 show ?thesis by simp
qed






end
